theory Spec2Isabelle
  imports Complex_Main
begin

section \<open>JavaScript numbers and strings\<close>

text \<open>
  A JavaScript number is NaN, one of the two infinities, or a finite double. A finite double
  is represented by its exact real value; the rounding of a quotient to the nearest double is
  not modelled. Integer arithmetic on doubles is exact below \<open>2 ^ 53\<close>, which is where the
  theorems on \<open>formatDuration\<close> stay.
\<close>

datatype jsnum = NaN | PosInfinity | NegInfinity | Finite real

definition isFinite :: "jsnum \<Rightarrow> bool" where
  "isFinite x = (case x of Finite r \<Rightarrow> True | NaN \<Rightarrow> False | PosInfinity \<Rightarrow> False | NegInfinity \<Rightarrow> False)"

text \<open>Truthiness of a number, as in \<^verbatim>\<open>audioEl.duration ? a : b\<close>: false for NaN and for zero.\<close>

definition truthy :: "jsnum \<Rightarrow> bool" where
  "truthy x = (case x of Finite r \<Rightarrow> r \<noteq> 0 | NaN \<Rightarrow> False | PosInfinity \<Rightarrow> True | NegInfinity \<Rightarrow> True)"

definition digit_char :: "nat \<Rightarrow> char" where
  "digit_char d = ''0123456789'' ! d"

text \<open>\<^verbatim>\<open>Number.prototype.toString\<close> on a non-negative integer: its decimal digits.\<close>

function show_nat :: "nat \<Rightarrow> string" where
  "show_nat n = (if n < 10 then [digit_char n] else show_nat (n div 10) @ [digit_char (n mod 10)])"
  by pat_completeness auto
termination
  by (relation "measure id") auto

declare show_nat.simps [simp del]

definition toString :: "int \<Rightarrow> string" where
  "toString i = (if i < 0 then CHR ''-'' # show_nat (nat (- i)) else show_nat (nat i))"

text \<open>\<^verbatim>\<open>s.padStart(n, c)\<close>: pads on the left up to length \<open>n\<close>, and leaves a longer string alone.\<close>

definition padStart :: "nat \<Rightarrow> char \<Rightarrow> string \<Rightarrow> string" where
  "padStart n c s = replicate (n - length s) c @ s"

text \<open>The remainder operator \<^verbatim>\<open>a % b\<close> on integers: the sign of the result is the dividend's.\<close>

definition js_rem :: "int \<Rightarrow> int \<Rightarrow> int" where
  "js_rem a b = (if a < 0 then - ((- a) mod \<bar>b\<bar>) else a mod \<bar>b\<bar>)"

text \<open>\<^verbatim>\<open>Math.round\<close>: the nearest integer, a tie going up.\<close>

definition math_round :: "real \<Rightarrow> int" where
  "math_round x = \<lfloor>x + 1 / 2\<rfloor>"

text \<open>
  \<^verbatim>\<open>
  function formatDuration(sec) {
    if (!isFinite(sec)) return '0:00';
    const total = Math.round(sec);
    const m = Math.floor(total / 60);
    const s = total % 60;
    return `${m}:${s.toString().padStart(2, '0')}`;
  }
  \<close>
\<close>

definition formatDuration :: "jsnum \<Rightarrow> string" where
  "formatDuration sec =
     (case sec of
        Finite r \<Rightarrow>
          (let total = math_round r;
               m = total div 60;
               s = js_rem total 60
           in toString m @ '':'' @ padStart 2 (CHR ''0'') (toString s))
      | NaN \<Rightarrow> ''0:00''
      | PosInfinity \<Rightarrow> ''0:00''
      | NegInfinity \<Rightarrow> ''0:00'')"

text \<open>
  \<^verbatim>\<open>width: `${Math.max(0, Math.min(100, pct))}%`\<close> in \<open>progressBarStyle\<close>: the number
  that is rendered as the width of the progress bar.
\<close>

definition progressBarStyle_width :: "real \<Rightarrow> real" where
  "progressBarStyle_width pct = max 0 (min 100 pct)"

section \<open>The state of the application\<close>

record js_blob =
  parts :: "string list"
  btype :: string

record recording =
  rec_id :: string
  url :: string
  blob :: js_blob
  name :: string
  duration :: real
  createdAt :: string

datatype permission_state = Prompt | Granted | Denied

text \<open>
  A MediaRecorder: \<open>Capturing\<close> is its state \<^verbatim>\<open>'recording'\<close>; \<open>NotStarted\<close> and
  \<open>Finalizing\<close> are both its state \<^verbatim>\<open>'inactive'\<close>, before \<^verbatim>\<open>start\<close> and after
  \<^verbatim>\<open>stop\<close> (when its stop event is still to be delivered). \<open>optMimeType\<close> is the
  \<^verbatim>\<open>mimeType\<close> option it was constructed with.
\<close>

datatype recorder_phase = NotStarted | Capturing | Finalizing

record media_recorder =
  phase :: recorder_phase
  optMimeType :: "string option"

text \<open>An audio element made by \<^verbatim>\<open>new Audio(url)\<close>.\<close>

record audio_el =
  src :: string
  paused :: bool
  currentTime :: real

text \<open>
  The React state of \<open>App\<close> and its refs. A ref to a platform object whose content the code
  never reads is a flag: true when the ref is not null. \<open>detachedAudio\<close> (the audio elements
  no ref holds any more, newest first) and \<open>revokedUrls\<close> (the object URLs given back with
  \<^verbatim>\<open>URL.revokeObjectURL\<close>) are kept to state what happened to them.
\<close>

record app =
  permission :: permission_state
  isRecording :: bool
  recordings :: "recording list"
  error :: string
  activeId :: "string option"
  isPlaying :: bool
  playProgress :: real
  mimeType :: string
  mediaRecorder :: "media_recorder option"
  mediaStream :: bool
  recordedChunks :: "string list"
  audioContext :: bool
  analyser :: bool
  dataArray :: bool
  sourceNode :: bool
  rafId :: bool
  playbackAudio :: "audio_el option"
  playbackSource :: bool
  playbackAnalyser :: bool
  playbackDataArray :: bool
  playbackRafId :: bool
  detachedAudio :: "audio_el list"
  revokedUrls :: "string list"

section \<open>The platform\<close>

text \<open>
  What the browser offers: \<^verbatim>\<open>window.MediaRecorder\<close>, its static
  \<^verbatim>\<open>isTypeSupported\<close> (which may be missing) and
  \<^verbatim>\<open>navigator.mediaDevices.getUserMedia\<close>.
\<close>

record platform =
  hasMediaRecorder :: bool
  isTypeSupported :: "(string \<Rightarrow> bool) option"
  hasGetUserMedia :: bool

definition supportsMediaRecorder :: "platform \<Rightarrow> bool" where
  "supportsMediaRecorder p = hasMediaRecorder p"

definition supportsGetUserMedia :: "platform \<Rightarrow> bool" where
  "supportsGetUserMedia p = hasGetUserMedia p"

definition candidates :: "string list" where
  "candidates =
     [''audio/webm;codecs=opus'', ''audio/webm'', ''audio/mp4'',
      ''audio/ogg;codecs=opus'', ''audio/ogg'', ''audio/wav'']"

text \<open>The loop of \<open>pickBestAudioMime\<close> over the candidates, in their order.\<close>

fun pick_loop :: "(string \<Rightarrow> bool) option \<Rightarrow> string list \<Rightarrow> string" where
  "pick_loop supported [] = ''''"
| "pick_loop supported (t # ts) =
     (if (case supported of None \<Rightarrow> False | Some f \<Rightarrow> f t) then t
      else pick_loop supported ts)"

definition pickBestAudioMime :: "platform \<Rightarrow> string" where
  "pickBestAudioMime p = (if \<not> hasMediaRecorder p then '''' else pick_loop (isTypeSupported p) candidates)"

definition canRecord :: "platform \<Rightarrow> bool" where
  "canRecord p = (supportsMediaRecorder p \<and> supportsGetUserMedia p)"

text \<open>
  The first render: the initial values of \<^verbatim>\<open>useState\<close> and \<^verbatim>\<open>useRef\<close>, and the
  \<^verbatim>\<open>useMemo\<close> of the MIME type, which has no dependency and is computed once.
\<close>

definition init :: "platform \<Rightarrow> app" where
  "init p =
     \<lparr>permission = Prompt, isRecording = False, recordings = [], error = '''',
      activeId = None, isPlaying = False, playProgress = 0,
      mimeType = (if supportsMediaRecorder p then pickBestAudioMime p else ''''),
      mediaRecorder = None, mediaStream = False, recordedChunks = [],
      audioContext = False, analyser = False, dataArray = False, sourceNode = False,
      rafId = False, playbackAudio = None, playbackSource = False,
      playbackAnalyser = False, playbackDataArray = False, playbackRafId = False,
      detachedAudio = [], revokedUrls = []\<rparr>"

section \<open>Audio graph helpers\<close>

text \<open>
  A call either returns or throws; what it wrote before throwing stays written. The handlers
  below run to their end in one step: an \<^verbatim>\<open>await\<close> is answered at once with the
  platform's answer, which is an argument of the handler.
\<close>

datatype completion = Normal | Thrown

text \<open>
  What the audio platform does in one call of a handler: whether constructing the
  AudioContext throws, and whether creating or connecting a node throws.
\<close>

record graph_answers =
  contextThrows :: bool
  nodeThrows :: bool

definition ensureAudioContext :: "graph_answers \<Rightarrow> app \<Rightarrow> completion \<times> app" where
  "ensureAudioContext g s =
     (if audioContext s then (Normal, s)
      else if contextThrows g then (Thrown, s)
      else (Normal, s\<lparr>audioContext := True\<rparr>))"

definition setupRecordingAnalyser :: "graph_answers \<Rightarrow> app \<Rightarrow> completion \<times> app" where
  "setupRecordingAnalyser g s =
     (case ensureAudioContext g s of
        (Thrown, s1) \<Rightarrow> (Thrown, s1)
      | (Normal, s1) \<Rightarrow>
          if nodeThrows g then (Thrown, s1)
          else (Normal, s1\<lparr>analyser := True, sourceNode := True, dataArray := True, rafId := True\<rparr>))"

text \<open>
  \<open>cleanupRecordingResources\<close> cancels the frame callback, disconnects the source, drops the
  analyser and its buffer, stops and drops the recorder, and stops the tracks of the stream.
\<close>

definition cleanupRecordingResources :: "app \<Rightarrow> app" where
  "cleanupRecordingResources s =
     s\<lparr>rafId := False, sourceNode := False, analyser := False, dataArray := False,
       mediaRecorder := None, mediaStream := False\<rparr>"

definition setupPlaybackAnalyser :: "graph_answers \<Rightarrow> app \<Rightarrow> completion \<times> app" where
  "setupPlaybackAnalyser g s =
     (case ensureAudioContext g s of
        (Thrown, s1) \<Rightarrow> (Thrown, s1)
      | (Normal, s1) \<Rightarrow>
          if nodeThrows g then (Thrown, s1)
          else (Normal, s1\<lparr>playbackAnalyser := True, playbackSource := True,
                            playbackDataArray := True, playbackRafId := True\<rparr>))"

definition cleanupPlaybackResources :: "app \<Rightarrow> app" where
  "cleanupPlaybackResources s =
     s\<lparr>playbackRafId := False, playbackSource := False, playbackAnalyser := False,
       playbackDataArray := False\<rparr>"

section \<open>Recording\<close>

text \<open>
  \<open>requestMicrophone\<close> returns the stream (here: whether it returned one) or throws.
  \<open>granted\<close> is the platform's answer to \<^verbatim>\<open>getUserMedia({ audio: true })\<close>.
\<close>

definition requestMicrophone :: "platform \<Rightarrow> bool \<Rightarrow> app \<Rightarrow> completion \<times> bool \<times> app" where
  "requestMicrophone p granted s =
     (let s0 = s\<lparr>error := ''''\<rparr> in
      if \<not> supportsGetUserMedia p then
        (Normal, False,
         s0\<lparr>permission := Denied, error := ''getUserMedia is not supported by this browser.''\<rparr>)
      else if granted then (Normal, True, s0\<lparr>mediaStream := True, permission := Granted\<rparr>)
      else (Thrown, False,
            s0\<lparr>permission := Denied, error := ''Microphone permission denied or unavailable.''\<rparr>))"

text \<open>
  The platform's answers during one \<open>startRecording\<close>: whether the microphone is granted,
  whether \<^verbatim>\<open>new MediaRecorder(stream, options)\<close> throws, what the audio graph does,
  and whether \<^verbatim>\<open>recorder.start(100)\<close> throws.
\<close>

record start_answers =
  micGranted :: bool
  recorderCtorThrows :: bool
  startGraph :: graph_answers
  recorderStartThrows :: bool

text \<open>
  The \<^verbatim>\<open>try\<close> block of \<open>startRecording\<close>, with its \<^verbatim>\<open>catch\<close>. The options get a
  \<^verbatim>\<open>mimeType\<close> only when the memoised MIME type is not the empty string.
\<close>

definition start_recorder :: "start_answers \<Rightarrow> app \<Rightarrow> app" where
  "start_recorder a s =
     (if recorderCtorThrows a then s\<lparr>error := ''Unable to start recording.''\<rparr>
      else
        (let recorder = \<lparr>phase = NotStarted,
                          optMimeType = (if mimeType s = '''' then None else Some (mimeType s))\<rparr>;
             s1 = s\<lparr>mediaRecorder := Some recorder, recordedChunks := []\<rparr>
         in case setupRecordingAnalyser (startGraph a) s1 of
              (Thrown, s2) \<Rightarrow> s2\<lparr>error := ''Unable to start recording.''\<rparr>
            | (Normal, s2) \<Rightarrow>
                if recorderStartThrows a then s2\<lparr>error := ''Unable to start recording.''\<rparr>
                else s2\<lparr>mediaRecorder := Some (recorder\<lparr>phase := Capturing\<rparr>),
                        isRecording := True\<rparr>))"

definition startRecording :: "platform \<Rightarrow> start_answers \<Rightarrow> app \<Rightarrow> app" where
  "startRecording p a s =
     (let s0 = s\<lparr>error := ''''\<rparr> in
      if \<not> supportsMediaRecorder p \<or> \<not> supportsGetUserMedia p then
        s0\<lparr>error := ''Audio recording is not supported in this browser.''\<rparr>
      else
        (case (if mediaStream s0 then (Normal, True, s0)
               else requestMicrophone p (micGranted a) s0) of
           (Thrown, got, s1) \<Rightarrow> s1
         | (Normal, got, s1) \<Rightarrow> if \<not> got then s1 else start_recorder a s1))"

text \<open>
  \<^verbatim>\<open>recorder.ondataavailable\<close>: keeps a chunk that is there and is not empty.
\<close>

definition ondataavailable :: "string option \<Rightarrow> app \<Rightarrow> app" where
  "ondataavailable d s =
     (case d of
        None \<Rightarrow> s
      | Some c \<Rightarrow> if length c > 0 then s\<lparr>recordedChunks := recordedChunks s @ [c]\<rparr> else s)"

definition stopRecording :: "app \<Rightarrow> app" where
  "stopRecording s =
     (let s0 = s\<lparr>error := ''''\<rparr> in
      case mediaRecorder s0 of
        None \<Rightarrow> s0
      | Some r \<Rightarrow>
          if phase r = Capturing then s0\<lparr>mediaRecorder := Some (r\<lparr>phase := Finalizing\<rparr>)\<rparr>
          else s0)"

text \<open>
  The probe of \<open>measureBlobDuration\<close>: creating the temporary element or its object URL
  throws inside the promise (the promise is rejected), or the element fires \<^verbatim>\<open>error\<close>,
  or it fires \<^verbatim>\<open>loadedmetadata\<close> with a duration. A probe that fires neither event
  never settles, and then the rest of \<^verbatim>\<open>onstop\<close> does not run: that is no step here.
\<close>

datatype probe_outcome = ProbeThrows | ProbeError | ProbeLoaded jsnum

text \<open>
  The platform's answers during one \<^verbatim>\<open>recorder.onstop\<close>: whether building the blob and
  its object URL works, the URL, the probe's temporary URL and outcome, \<^verbatim>\<open>Date.now()\<close>,
  the suffix \<^verbatim>\<open>Math.random().toString(36).slice(2, 7)\<close>, and the two renderings of the
  date.
\<close>

record stop_answers =
  assembleThrows :: bool
  newUrl :: string
  tempUrl :: string
  probe :: probe_outcome
  now :: nat
  randomSuffix :: string
  localeTime :: string
  isoTime :: string

definition new_id :: "nat \<Rightarrow> string \<Rightarrow> string" where
  "new_id t r = show_nat t @ ''-'' @ r"

text \<open>The value \<open>measureBlobDuration\<close> resolves with, when it resolves.\<close>

definition measureBlobDuration :: "probe_outcome \<Rightarrow> real option" where
  "measureBlobDuration pr =
     (case pr of
        ProbeThrows \<Rightarrow> None
      | ProbeError \<Rightarrow> Some 0
      | ProbeLoaded d \<Rightarrow> Some (case d of Finite r \<Rightarrow> r | NaN \<Rightarrow> 0 | PosInfinity \<Rightarrow> 0 | NegInfinity \<Rightarrow> 0))"

definition newRec :: "stop_answers \<Rightarrow> app \<Rightarrow> real \<Rightarrow> recording" where
  "newRec a s d =
     \<lparr>rec_id = new_id (now a) (randomSuffix a),
      url = newUrl a,
      blob = \<lparr>parts = recordedChunks s,
              btype = (if mimeType s = '''' then ''audio/webm'' else mimeType s)\<rparr>,
      name = ''Recording '' @ localeTime a,
      duration = d,
      createdAt = isoTime a\<rparr>"

text \<open>The \<^verbatim>\<open>try\<close> block of \<^verbatim>\<open>recorder.onstop\<close>.\<close>

definition onstop_try :: "stop_answers \<Rightarrow> app \<Rightarrow> completion \<times> app" where
  "onstop_try a s =
     (if assembleThrows a then (Thrown, s)
      else
        (case measureBlobDuration (probe a) of
           None \<Rightarrow> (Thrown, s)
         | Some d \<Rightarrow>
             (Normal, s\<lparr>recordings := newRec a s d # recordings s,
                        revokedUrls := tempUrl a # revokedUrls s\<rparr>)))"

text \<open>\<^verbatim>\<open>recorder.onstop\<close>: the \<^verbatim>\<open>try\<close> block, its \<^verbatim>\<open>catch\<close> and its \<^verbatim>\<open>finally\<close>.\<close>

definition recorder_onstop :: "stop_answers \<Rightarrow> app \<Rightarrow> app" where
  "recorder_onstop a s =
     (let s1 = (case onstop_try a s of
                  (Normal, s') \<Rightarrow> s'
                | (Thrown, s') \<Rightarrow> s'\<lparr>error := ''Failed to process recording.''\<rparr>)
      in (cleanupRecordingResources s1)\<lparr>isRecording := False\<rparr>)"

section \<open>Playback\<close>

text \<open>
  The calls on the audio element include the listeners of the events they queue, which the
  platform delivers in the order of the calls: \<^verbatim>\<open>pause()\<close> on an element that is playing
  fires \<^verbatim>\<open>pause\<close> (\<^verbatim>\<open>setIsPlaying(false)\<close>), and \<^verbatim>\<open>play()\<close> fires \<^verbatim>\<open>play\<close>
  (\<^verbatim>\<open>setIsPlaying(true)\<close>). An element that the ref has dropped was paused before; the
  events it may still fire are not steps here.
\<close>

definition media_pause :: "app \<Rightarrow> app" where
  "media_pause s =
     (case playbackAudio s of
        None \<Rightarrow> s
      | Some el \<Rightarrow>
          if paused el then s
          else s\<lparr>playbackAudio := Some (el\<lparr>paused := True\<rparr>), isPlaying := False\<rparr>)"

definition media_seek :: "real \<Rightarrow> app \<Rightarrow> app" where
  "media_seek t s =
     (case playbackAudio s of
        None \<Rightarrow> s
      | Some el \<Rightarrow> s\<lparr>playbackAudio := Some (el\<lparr>currentTime := t\<rparr>)\<rparr>)"

text \<open>
  What \<^verbatim>\<open>audioEl.play()\<close> does: playback starts; or the platform does not allow it (the
  promise is rejected and the element stays paused); or the element starts and its source
  then fails to load (\<^verbatim>\<open>play\<close> was fired, then the promise is rejected).
\<close>

datatype play_outcome = PlayStarts | PlayNotAllowed | PlayLoadFails

definition media_play :: "play_outcome \<Rightarrow> app \<Rightarrow> app" where
  "media_play out s =
     (case playbackAudio s of
        None \<Rightarrow> s
      | Some el \<Rightarrow>
          (case out of
             PlayStarts \<Rightarrow> s\<lparr>playbackAudio := Some (el\<lparr>paused := False\<rparr>), isPlaying := True\<rparr>
           | PlayNotAllowed \<Rightarrow> s\<lparr>error := ''Unable to play audio.''\<rparr>
           | PlayLoadFails \<Rightarrow>
               s\<lparr>playbackAudio := Some (el\<lparr>paused := False\<rparr>), isPlaying := True,
                 error := ''Unable to play audio.''\<rparr>))"

record play_answers =
  playGraph :: graph_answers
  playResult :: play_outcome

text \<open>
  \<^verbatim>\<open>playbackAudioRef.current = new Audio(rec.url)\<close>: the element the ref held before is
  held by no ref any more.
\<close>

definition new_audio :: "string \<Rightarrow> app \<Rightarrow> app" where
  "new_audio u s =
     s\<lparr>playbackAudio := Some \<lparr>src = u, paused = True, currentTime = 0\<rparr>,
       detachedAudio := (case playbackAudio s of None \<Rightarrow> [] | Some el \<Rightarrow> [el]) @ detachedAudio s\<rparr>"

text \<open>
  The first half of the second branch of \<open>onPlay\<close> (\<^verbatim>\<open>// switch track\<close> and
  \<^verbatim>\<open>// stop previous\<close>), up to \<open>cleanupPlaybackResources\<close>.
\<close>

definition stop_previous :: "string \<Rightarrow> app \<Rightarrow> app" where
  "stop_previous recId s =
     (let s1 = s\<lparr>activeId := Some recId, playProgress := 0\<rparr>;
          s2 = (case playbackAudio s1 of
                  None \<Rightarrow> s1
                | Some el \<Rightarrow> media_seek 0 (media_pause s1))
      in cleanupPlaybackResources s2)"

text \<open>
  The second half, for the recording found: the new element, its analyser (a failure of
  the visualiser is ignored) and \<^verbatim>\<open>play()\<close>.
\<close>

definition attach_and_play :: "play_answers \<Rightarrow> recording \<Rightarrow> app \<Rightarrow> app" where
  "attach_and_play a r s =
     (let s1 = new_audio (url r) s;
          s2 = snd (setupPlaybackAnalyser (playGraph a) s1)
      in media_play (playResult a) s2)"

definition onPlay :: "play_answers \<Rightarrow> string \<Rightarrow> app \<Rightarrow> app" where
  "onPlay a recId s =
     (if activeId s = Some recId \<and> isPlaying s then
        (case playbackAudio s of
           None \<Rightarrow> s
         | Some el \<Rightarrow> (media_pause s)\<lparr>isPlaying := False\<rparr>)
      else
        (let s1 = stop_previous recId s in
         case find (\<lambda>r. rec_id r = recId) (recordings s) of
           None \<Rightarrow> s1
         | Some r \<Rightarrow> attach_and_play a r s1))"

definition onDelete :: "string \<Rightarrow> app \<Rightarrow> app" where
  "onDelete recId s =
     (let s1 = s\<lparr>recordings := filter (\<lambda>r. rec_id r \<noteq> recId) (recordings s),
                 revokedUrls := (case find (\<lambda>r. rec_id r = recId) (recordings s) of
                                   None \<Rightarrow> revokedUrls s
                                 | Some r \<Rightarrow> url r # revokedUrls s)\<rparr>
      in if activeId s = Some recId then
           (let s2 = (case playbackAudio s1 of
                        None \<Rightarrow> s1
                      | Some el \<Rightarrow>
                          (let s' = media_pause s1 in
                           s'\<lparr>playbackAudio := None,
                              detachedAudio := (case playbackAudio s' of None \<Rightarrow> [] | Some e \<Rightarrow> [e])
                                               @ detachedAudio s'\<rparr>));
                s3 = cleanupPlaybackResources s2
            in s3\<lparr>activeId := None, isPlaying := False, playProgress := 0\<rparr>)
         else s1)"

text \<open>
  The \<^verbatim>\<open>timeupdate\<close> listener, given the element's position and duration:
  \<^verbatim>\<open>const p = audioEl.duration ? (audioEl.currentTime / audioEl.duration) * 100 : 0\<close>.
  A finite position divided by an infinite duration is zero.
\<close>

definition progress_of :: "real \<Rightarrow> jsnum \<Rightarrow> real" where
  "progress_of cur dur =
     (if truthy dur then
        (case dur of Finite d \<Rightarrow> (cur / d) * 100 | NaN \<Rightarrow> 0 | PosInfinity \<Rightarrow> 0 | NegInfinity \<Rightarrow> 0)
      else 0)"

definition timeupdate_listener :: "real \<Rightarrow> jsnum \<Rightarrow> app \<Rightarrow> app" where
  "timeupdate_listener cur dur s = s\<lparr>playProgress := progress_of cur dur\<rparr>"

text \<open>
  The platform moves the position of the current element to \<open>cur\<close> and fires
  \<^verbatim>\<open>timeupdate\<close>; \<open>dur\<close> is the duration the element reports.
\<close>

definition media_timeupdate :: "real \<Rightarrow> jsnum \<Rightarrow> app \<Rightarrow> app" where
  "media_timeupdate cur dur s =
     (case playbackAudio s of
        None \<Rightarrow> s
      | Some el \<Rightarrow> timeupdate_listener cur dur (media_seek cur s))"

definition ended_listener :: "app \<Rightarrow> app" where
  "ended_listener s = cleanupPlaybackResources (s\<lparr>isPlaying := False, playProgress := 100\<rparr>)"

text \<open>
  The current element reaches its end: the platform pauses it (firing \<^verbatim>\<open>pause\<close>) and
  fires \<^verbatim>\<open>ended\<close>.
\<close>

definition media_ended :: "app \<Rightarrow> app" where
  "media_ended s =
     (case playbackAudio s of
        None \<Rightarrow> s
      | Some el \<Rightarrow> if paused el then s else ended_listener (media_pause s))"

section \<open>Sequences of operations\<close>

text \<open>
  A handler of the application called with the platform's answers, or an event of the
  platform. No guard of the user interface is assumed: a handler may be called in any state.
\<close>

datatype event =
    StartRecording start_answers
  | StopRecording
  | DataAvailable "string option"
  | RecorderStop stop_answers
  | Play string play_answers
  | Delete string
  | TimeUpdate real jsnum
  | Ended

fun fire :: "platform \<Rightarrow> event \<Rightarrow> app \<Rightarrow> app" where
  "fire p (StartRecording a) s = startRecording p a s"
| "fire p StopRecording s = stopRecording s"
| "fire p (DataAvailable d) s = ondataavailable d s"
| "fire p (RecorderStop a) s = recorder_onstop a s"
| "fire p (Play i a) s = onPlay a i s"
| "fire p (Delete i) s = onDelete i s"
| "fire p (TimeUpdate cur dur) s = media_timeupdate cur dur s"
| "fire p Ended s = media_ended s"

fun run :: "platform \<Rightarrow> event list \<Rightarrow> app \<Rightarrow> app" where
  "run p [] s = s"
| "run p (e # es) s = run p es (fire p e s)"

text \<open>Every audio element there is: the one the ref holds, and the ones it held before.\<close>

definition all_audio :: "app \<Rightarrow> audio_el list" where
  "all_audio s = (case playbackAudio s of None \<Rightarrow> [] | Some el \<Rightarrow> [el]) @ detachedAudio s"

definition playing_elements :: "app \<Rightarrow> audio_el list" where
  "playing_elements s = filter (\<lambda>e. \<not> paused e) (all_audio s)"

text \<open>The refs of the playback visualiser are all null.\<close>

definition playback_torn_down :: "app \<Rightarrow> bool" where
  "playback_torn_down s =
     (\<not> playbackRafId s \<and> \<not> playbackSource s \<and> \<not> playbackAnalyser s \<and> \<not> playbackDataArray s)"

text \<open>The recorder, the stream and the refs of the recording visualiser are all null.\<close>

definition capture_released :: "app \<Rightarrow> bool" where
  "capture_released s =
     (\<not> rafId s \<and> \<not> sourceNode s \<and> \<not> analyser s \<and> \<not> dataArray s
      \<and> mediaRecorder s = None \<and> \<not> mediaStream s)"

text \<open>
  The playback slot is consistent: \<open>isPlaying\<close> says whether the current element is playing,
  a playing recording is the active one and is stored, and no element the ref dropped plays.
\<close>

definition slot_ok :: "app \<Rightarrow> bool" where
  "slot_ok s =
     ((isPlaying s = (case playbackAudio s of None \<Rightarrow> False | Some el \<Rightarrow> \<not> paused el))
      \<and> (isPlaying s \<longrightarrow> (case activeId s of None \<Rightarrow> False
                                | Some i \<Rightarrow> i \<in> set (map rec_id (recordings s))))
      \<and> list_all paused (detachedAudio s))"

text \<open>No recorder is capturing: there is none, or its state is \<^verbatim>\<open>'inactive'\<close>.\<close>

definition no_active_recorder :: "app \<Rightarrow> bool" where
  "no_active_recorder s = (case mediaRecorder s of None \<Rightarrow> True | Some r \<Rightarrow> phase r \<noteq> Capturing)"

text \<open>
  A \<^verbatim>\<open>timeupdate\<close> whose position lies within the duration the element reports, as the
  platform's media timeline has it.
\<close>

fun position_ok :: "event \<Rightarrow> bool" where
  "position_ok (TimeUpdate cur dur) =
     (0 \<le> cur \<and>
      (case dur of Finite d \<Rightarrow> cur \<le> d | NaN \<Rightarrow> True | PosInfinity \<Rightarrow> True
       | NegInfinity \<Rightarrow> True))"
| "position_ok e = True"

text \<open>The stored progress is a percentage.\<close>

definition progress_in_range :: "app \<Rightarrow> bool" where
  "progress_in_range s = (0 \<le> playProgress s \<and> playProgress s \<le> 100)"

text \<open>Reading a decimal numeral back, to show that the rendering loses nothing.\<close>

definition digit_val :: "char \<Rightarrow> nat" where
  "digit_val c = of_char c - 48"

definition read_nat :: "string \<Rightarrow> nat" where
  "read_nat cs = foldl (\<lambda>acc c. 10 * acc + digit_val c) 0 cs"

section \<open>A concrete session\<close>

text \<open>
  A browser whose encoder supports WebM and Ogg without the codec parameter, one that
  supports none of the candidates, and one without MediaRecorder.
\<close>

definition webm_or_ogg :: "string \<Rightarrow> bool" where
  "webm_or_ogg t = (t = ''audio/webm'' \<or> t = ''audio/ogg'')"

definition nothing_supported :: "string \<Rightarrow> bool" where
  "nothing_supported t = False"

definition webm_platform :: platform where
  "webm_platform =
     \<lparr>hasMediaRecorder = True, isTypeSupported = Some webm_or_ogg, hasGetUserMedia = True\<rparr>"

definition no_codec_platform :: platform where
  "no_codec_platform =
     \<lparr>hasMediaRecorder = True, isTypeSupported = Some nothing_supported,
      hasGetUserMedia = True\<rparr>"

definition no_recorder_platform :: platform where
  "no_recorder_platform =
     \<lparr>hasMediaRecorder = False, isTypeSupported = None, hasGetUserMedia = True\<rparr>"

definition quiet_graph :: graph_answers where
  "quiet_graph = \<lparr>contextThrows = False, nodeThrows = False\<rparr>"

definition start_ok :: start_answers where
  "start_ok =
     \<lparr>micGranted = True, recorderCtorThrows = False, startGraph = quiet_graph,
      recorderStartThrows = False\<rparr>"

definition play_ok :: play_answers where
  "play_ok = \<lparr>playGraph = quiet_graph, playResult = PlayStarts\<rparr>"

definition first_stop :: stop_answers where
  "first_stop =
     \<lparr>assembleThrows = False, newUrl = ''blob:1'', tempUrl = ''blob:2'',
      probe = ProbeLoaded (Finite 10), now = 1700000000000, randomSuffix = ''k3x9q'',
      localeTime = ''10:13:20 PM'', isoTime = ''2023-11-14T22:13:20.000Z''\<rparr>"

definition second_stop :: stop_answers where
  "second_stop =
     \<lparr>assembleThrows = False, newUrl = ''blob:3'', tempUrl = ''blob:4'',
      probe = ProbeError, now = 1700000060000, randomSuffix = ''a0b1c'',
      localeTime = ''10:14:20 PM'', isoTime = ''2023-11-14T22:14:20.000Z''\<rparr>"

definition failing_stop :: stop_answers where
  "failing_stop =
     \<lparr>assembleThrows = True, newUrl = ''blob:5'', tempUrl = ''blob:6'',
      probe = ProbeLoaded (Finite 3), now = 1700000120000, randomSuffix = ''zz9yx'',
      localeTime = ''10:15:20 PM'', isoTime = ''2023-11-14T22:15:20.000Z''\<rparr>"

definition first_rec :: recording where
  "first_rec =
     \<lparr>rec_id = ''1700000000000-k3x9q'', url = ''blob:1'',
      blob = \<lparr>parts = [''abc''], btype = ''audio/webm''\<rparr>,
      name = ''Recording 10:13:20 PM'', duration = 10,
      createdAt = ''2023-11-14T22:13:20.000Z''\<rparr>"

definition second_rec :: recording where
  "second_rec =
     \<lparr>rec_id = ''1700000060000-a0b1c'', url = ''blob:3'',
      blob = \<lparr>parts = [''defg''], btype = ''audio/webm''\<rparr>,
      name = ''Recording 10:14:20 PM'', duration = 0,
      createdAt = ''2023-11-14T22:14:20.000Z''\<rparr>"

text \<open>Start, one chunk, stop: the recorder is waiting for its stop event.\<close>

definition stopped_first :: app where
  "stopped_first =
     run webm_platform [StartRecording start_ok, DataAvailable (Some ''abc''), StopRecording]
       (init webm_platform)"

definition one_recording :: app where
  "one_recording = recorder_onstop first_stop stopped_first"

definition stopped_second :: app where
  "stopped_second =
     run webm_platform [StartRecording start_ok, DataAvailable (Some ''defg''), StopRecording]
       one_recording"

definition two_recordings :: app where
  "two_recordings = recorder_onstop second_stop stopped_second"

text \<open>The first recording is selected and has played for five of its ten seconds.\<close>

definition playing_first :: app where
  "playing_first =
     run webm_platform [Play ''1700000000000-k3x9q'' play_ok, TimeUpdate 5 (Finite 10)]
       two_recordings"

text \<open>
  A third stop for which the platform gives the time stamp and the random suffix of the
  first one again, and the session in which it follows the first recording.
\<close>

definition twin_stop :: stop_answers where
  "twin_stop =
     \<lparr>assembleThrows = False, newUrl = ''blob:7'', tempUrl = ''blob:8'',
      probe = ProbeLoaded (Finite 4), now = 1700000000000, randomSuffix = ''k3x9q'',
      localeTime = ''10:13:20 PM'', isoTime = ''2023-11-14T22:13:20.000Z''\<rparr>"

definition twin_rec :: recording where
  "twin_rec =
     \<lparr>rec_id = ''1700000000000-k3x9q'', url = ''blob:7'',
      blob = \<lparr>parts = [''defg''], btype = ''audio/webm''\<rparr>,
      name = ''Recording 10:13:20 PM'', duration = 4,
      createdAt = ''2023-11-14T22:13:20.000Z''\<rparr>"

definition twin_recordings :: app where
  "twin_recordings = recorder_onstop twin_stop stopped_second"

section \<open>Decimal numerals\<close>

text \<open>
  The decimal rendering of a number can be read back, and it contains no dash: an
  identifier made of a time stamp, a dash and a suffix determines both.
\<close>

lemma digit_val_char: "d < 10 \<Longrightarrow> digit_val (digit_char d) = d"
proof -
  assume a: "d < 10"
  have A: "d \<in> {0,1,2,3,4,5,6,7,8,9}" using a by auto
  show ?thesis using A by (auto simp: digit_char_def digit_val_def)
qed

lemma read_show: "read_nat (show_nat n) = n"
proof (induction n rule: show_nat.induct)
  case (1 n)
  show ?case
  proof (cases "n < 10")
    case True
    then show ?thesis by (subst show_nat.simps) (simp add: read_nat_def digit_val_char)
  next
    case False
    then have "read_nat (show_nat (n div 10)) = n div 10" using 1 by simp
    then show ?thesis using False
      by (subst show_nat.simps) (simp add: read_nat_def digit_val_char)
  qed
qed

lemma show_nat_inj: "show_nat a = show_nat b \<Longrightarrow> a = b"
  by (metis read_show)

lemma digit_char_not_dash: "d < 10 \<Longrightarrow> CHR ''-'' \<noteq> digit_char d"
proof -
  assume a: "d < 10"
  have A: "d \<in> {0,1,2,3,4,5,6,7,8,9}" using a by auto
  show ?thesis using A by (auto simp: digit_char_def)
qed

lemma show_nat_no_dash: "CHR ''-'' \<notin> set (show_nat n)"
proof (induction n rule: show_nat.induct)
  case (1 n)
  show ?case
  proof (cases "n < 10")
    case True
    then show ?thesis by (subst show_nat.simps) (simp add: digit_char_not_dash)
  next
    case False
    then have "CHR ''-'' \<notin> set (show_nat (n div 10))" using 1 by simp
    then show ?thesis using False
      by (subst show_nat.simps) (simp add: digit_char_not_dash)
  qed
qed

lemma new_id_takeWhile: "takeWhile (\<lambda>c. c \<noteq> CHR ''-'') (new_id t r) = show_nat t"
proof -
  have "c \<notin> set xs \<Longrightarrow> takeWhile (\<lambda>x. x \<noteq> c) (xs @ c # ys) = xs" for c :: char and xs ys
    by (induction xs) auto
  then show ?thesis using show_nat_no_dash[of t] by (simp add: new_id_def)
qed

lemma new_id_inj: "new_id t1 r1 = new_id t2 r2 \<Longrightarrow> t1 = t2 \<and> r1 = r2"
proof -
  assume e: "new_id t1 r1 = new_id t2 r2"
  then have "show_nat t1 = show_nat t2" by (metis new_id_takeWhile)
  then have t: "t1 = t2" by (rule show_nat_inj)
  with e show ?thesis by (simp add: new_id_def)
qed

lemma new_id_eq_iff: "(new_id t1 r1 = new_id t2 r2) = (t1 = t2 \<and> r1 = r2)"
  using new_id_inj[of t1 r1 t2 r2] by auto

lemma formatDuration_nonneg:
  assumes "0 \<le> x"
  shows "formatDuration (Finite x) =
     show_nat (nat (math_round x) div 60) @ '':'' @
       [digit_char (nat (math_round x) mod 60 div 10), digit_char (nat (math_round x) mod 60 mod 10)]"
proof -
  define t where "t = math_round x"
  have t0: "0 \<le> t" using assms by (simp add: t_def math_round_def)
  define s where "s = nat t mod 60"
  have s60: "s < 60" by (simp add: s_def)
  have m: "toString (t div 60) = show_nat (nat t div 60)"
    using t0 by (simp add: toString_def nat_div_distrib pos_imp_zdiv_nonneg_iff)
  have r: "js_rem t 60 = int s" using t0 by (simp add: js_rem_def s_def zmod_int)
  have sec: "padStart 2 (CHR ''0'') (toString (int s)) = [digit_char (s div 10), digit_char (s mod 10)]"
  proof (cases "s < 10")
    case True
    then show ?thesis
      by (simp add: toString_def padStart_def show_nat.simps[of s] digit_char_def)
  next
    case False
    then have "s div 10 < 10" using s60 by simp
    then show ?thesis using False
      by (simp add: toString_def padStart_def show_nat.simps[of s] show_nat.simps[of "s div 10"])
  qed
  show ?thesis
    unfolding formatDuration_def using m r sec by (simp add: t_def[symmetric] s_def[symmetric] Let_def)
qed

section \<open>What each handler changes\<close>

text \<open>
  For each handler, the fields it leaves alone and the values it gives to the others.
\<close>

lemmas graph_defs = ensureAudioContext_def setupRecordingAnalyser_def setupPlaybackAnalyser_def
  cleanupRecordingResources_def cleanupPlaybackResources_def

lemma startRecording_frame:
  "recordings (startRecording p a s) = recordings s
   \<and> activeId (startRecording p a s) = activeId s
   \<and> isPlaying (startRecording p a s) = isPlaying s
   \<and> playProgress (startRecording p a s) = playProgress s
   \<and> playbackAudio (startRecording p a s) = playbackAudio s
   \<and> detachedAudio (startRecording p a s) = detachedAudio s
   \<and> mimeType (startRecording p a s) = mimeType s"
  by (simp add: startRecording_def requestMicrophone_def start_recorder_def graph_defs Let_def)

lemma startRecording_starts:
  assumes "canRecord p" "mediaStream s \<or> micGranted a" "\<not> recorderCtorThrows a"
    "\<not> contextThrows (startGraph a)" "\<not> nodeThrows (startGraph a)" "\<not> recorderStartThrows a"
  shows "isRecording (startRecording p a s)
    \<and> mediaRecorder (startRecording p a s) =
        Some \<lparr>phase = Capturing,
              optMimeType = (if mimeType s = '''' then None else Some (mimeType s))\<rparr>"
  using assms
  by (auto simp add: canRecord_def startRecording_def requestMicrophone_def start_recorder_def
      setupRecordingAnalyser_def ensureAudioContext_def Let_def)

lemma startRecording_unsupported:
  "\<not> canRecord p \<Longrightarrow>
   mediaRecorder (startRecording p a s) = mediaRecorder s
   \<and> isRecording (startRecording p a s) = isRecording s
   \<and> error (startRecording p a s) = ''Audio recording is not supported in this browser.''"
  by (auto simp add: canRecord_def startRecording_def Let_def)

lemma stopRecording_frame:
  "recordings (stopRecording s) = recordings s
   \<and> activeId (stopRecording s) = activeId s
   \<and> isPlaying (stopRecording s) = isPlaying s
   \<and> playProgress (stopRecording s) = playProgress s
   \<and> playbackAudio (stopRecording s) = playbackAudio s
   \<and> detachedAudio (stopRecording s) = detachedAudio s
   \<and> mimeType (stopRecording s) = mimeType s"
  by (simp add: stopRecording_def Let_def split: option.split)

lemma ondataavailable_frame:
  "recordings (ondataavailable d s) = recordings s
   \<and> activeId (ondataavailable d s) = activeId s
   \<and> isPlaying (ondataavailable d s) = isPlaying s
   \<and> playProgress (ondataavailable d s) = playProgress s
   \<and> playbackAudio (ondataavailable d s) = playbackAudio s
   \<and> detachedAudio (ondataavailable d s) = detachedAudio s
   \<and> mimeType (ondataavailable d s) = mimeType s"
  by (simp add: ondataavailable_def split: option.split)

lemma measureBlobDuration_None: "(measureBlobDuration pr = None) = (pr = ProbeThrows)"
  by (cases pr) (simp_all add: measureBlobDuration_def)

lemma recorder_onstop_frame:
  "activeId (recorder_onstop a s) = activeId s
   \<and> isPlaying (recorder_onstop a s) = isPlaying s
   \<and> playProgress (recorder_onstop a s) = playProgress s
   \<and> playbackAudio (recorder_onstop a s) = playbackAudio s
   \<and> detachedAudio (recorder_onstop a s) = detachedAudio s
   \<and> mimeType (recorder_onstop a s) = mimeType s"
  by (simp add: recorder_onstop_def onstop_try_def graph_defs Let_def split: option.split)

lemma recorder_onstop_recordings:
  "recordings (recorder_onstop a s) =
     (if assembleThrows a then recordings s
      else case measureBlobDuration (probe a) of
             None \<Rightarrow> recordings s
           | Some d \<Rightarrow> newRec a s d # recordings s)"
  by (simp add: recorder_onstop_def onstop_try_def graph_defs Let_def split: option.split)

lemma recorder_onstop_released:
  "capture_released (recorder_onstop a s) \<and> \<not> isRecording (recorder_onstop a s)"
  by (simp add: recorder_onstop_def capture_released_def cleanupRecordingResources_def Let_def
      split: prod.split completion.split)

lemma recorder_onstop_error:
  "error (recorder_onstop a s) =
     (if assembleThrows a \<or> measureBlobDuration (probe a) = None
      then ''Failed to process recording.'' else error s)"
  by (simp add: recorder_onstop_def onstop_try_def cleanupRecordingResources_def Let_def
      split: option.split)

lemma paused_update_id: "paused el \<Longrightarrow> el\<lparr>paused := True\<rparr> = el"
  by (cases el) simp

lemma media_pause_fields:
  "playbackAudio (media_pause s) = map_option (\<lambda>el. el\<lparr>paused := True\<rparr>) (playbackAudio s)
   \<and> isPlaying (media_pause s) =
       (isPlaying s \<and> (case playbackAudio s of None \<Rightarrow> True | Some el \<Rightarrow> paused el))
   \<and> activeId (media_pause s) = activeId s
   \<and> recordings (media_pause s) = recordings s
   \<and> detachedAudio (media_pause s) = detachedAudio s
   \<and> playProgress (media_pause s) = playProgress s
   \<and> mimeType (media_pause s) = mimeType s
   \<and> playbackRafId (media_pause s) = playbackRafId s
   \<and> playbackSource (media_pause s) = playbackSource s
   \<and> playbackAnalyser (media_pause s) = playbackAnalyser s
   \<and> playbackDataArray (media_pause s) = playbackDataArray s"
  by (simp add: media_pause_def paused_update_id split: option.split)

lemma stop_previous_fields:
  "activeId (stop_previous i s) = Some i
   \<and> playProgress (stop_previous i s) = 0
   \<and> playbackAudio (stop_previous i s) =
       map_option (\<lambda>el. el\<lparr>paused := True, currentTime := 0\<rparr>) (playbackAudio s)
   \<and> isPlaying (stop_previous i s) =
       (isPlaying s \<and> (case playbackAudio s of None \<Rightarrow> True | Some el \<Rightarrow> paused el))
   \<and> recordings (stop_previous i s) = recordings s
   \<and> detachedAudio (stop_previous i s) = detachedAudio s
   \<and> mimeType (stop_previous i s) = mimeType s
   \<and> playback_torn_down (stop_previous i s)"
  by (simp add: stop_previous_def media_pause_def media_seek_def cleanupPlaybackResources_def
      playback_torn_down_def paused_update_id Let_def split: option.split)

lemma attach_and_play_fields:
  "playbackAudio (attach_and_play a r s) =
       Some \<lparr>src = url r, paused = (playResult a = PlayNotAllowed), currentTime = 0\<rparr>
   \<and> detachedAudio (attach_and_play a r s) =
       (case playbackAudio s of None \<Rightarrow> [] | Some el \<Rightarrow> [el]) @ detachedAudio s
   \<and> isPlaying (attach_and_play a r s) = (if playResult a = PlayNotAllowed then isPlaying s else True)
   \<and> activeId (attach_and_play a r s) = activeId s
   \<and> recordings (attach_and_play a r s) = recordings s
   \<and> playProgress (attach_and_play a r s) = playProgress s
   \<and> mimeType (attach_and_play a r s) = mimeType s"
  by (cases "playResult a")
    (simp_all add: attach_and_play_def new_audio_def media_play_def setupPlaybackAnalyser_def
      ensureAudioContext_def Let_def)

lemma onPlay_pause_branch:
  "activeId s = Some i \<Longrightarrow> isPlaying s \<Longrightarrow>
   onPlay a i s = (case playbackAudio s of None \<Rightarrow> s | Some el \<Rightarrow> (media_pause s)\<lparr>isPlaying := False\<rparr>)"
  by (simp add: onPlay_def)

lemma onPlay_switch_branch:
  "\<not> (activeId s = Some i \<and> isPlaying s) \<Longrightarrow>
   onPlay a i s =
     (case find (\<lambda>r. rec_id r = i) (recordings s) of
        None \<Rightarrow> stop_previous i s
      | Some r \<Rightarrow> attach_and_play a r (stop_previous i s))"
  by (auto simp add: onPlay_def Let_def)

lemma onPlay_mimeType: "mimeType (onPlay a i s) = mimeType s"
proof (cases "activeId s = Some i \<and> isPlaying s")
  case True
  then show ?thesis by (simp add: onPlay_pause_branch media_pause_fields split: option.split)
next
  case False
  then show ?thesis
    by (simp add: onPlay_switch_branch attach_and_play_fields stop_previous_fields split: option.split)
qed

lemma onPlay_playProgress:
  "playProgress (onPlay a i s) = (if activeId s = Some i \<and> isPlaying s then playProgress s else 0)"
proof (cases "activeId s = Some i \<and> isPlaying s")
  case True
  then show ?thesis by (simp add: onPlay_pause_branch media_pause_fields split: option.split)
next
  case False
  then show ?thesis
    by (auto simp add: onPlay_switch_branch attach_and_play_fields stop_previous_fields
        split: option.split)
qed



lemma find_rec_id: "find (\<lambda>r. rec_id r = i) rs = Some r \<Longrightarrow> rec_id r = i \<and> r \<in> set rs"
  by (induction rs) (auto split: if_splits)

lemma find_rec_id_None: "(find (\<lambda>r. rec_id r = i) rs = None) = (i \<notin> rec_id ` set rs)"
  by (induction rs) auto

lemma filter_rec_id_absent: "i \<notin> rec_id ` set (filter (\<lambda>r. rec_id r \<noteq> i) rs)"
  by auto

lemma find_rec_id_present:
  "i \<in> rec_id ` set rs \<Longrightarrow> \<exists>r. find (\<lambda>r. rec_id r = i) rs = Some r \<and> rec_id r = i"
  by (induction rs) auto

lemma delete_one_entry:
  "distinct (map rec_id rs) \<Longrightarrow> i \<in> rec_id ` set rs \<Longrightarrow>
   \<exists>pre r post. rs = pre @ r # post \<and> rec_id r = i
      \<and> filter (\<lambda>r. rec_id r \<noteq> i) rs = pre @ post
      \<and> find (\<lambda>r. rec_id r = i) rs = Some r"
proof (induction rs)
  case Nil
  then show ?case by simp
next
  case (Cons x xs)
  show ?case
  proof (cases "rec_id x = i")
    case True
    then have "i \<notin> rec_id ` set xs" using Cons.prems(1) by auto
    then have "filter (\<lambda>r. rec_id r \<noteq> i) xs = xs" by (induction xs) auto
    then have "x # xs = [] @ x # xs \<and> rec_id x = i
      \<and> filter (\<lambda>r. rec_id r \<noteq> i) (x # xs) = [] @ xs
      \<and> find (\<lambda>r. rec_id r = i) (x # xs) = Some x"
      using True by simp
    then show ?thesis by blast
  next
    case False
    then have "distinct (map rec_id xs)" "i \<in> rec_id ` set xs" using Cons.prems by auto
    from Cons.IH[OF this] obtain pre r post where
      pp: "xs = pre @ r # post" "rec_id r = i" "filter (\<lambda>r. rec_id r \<noteq> i) xs = pre @ post"
        "find (\<lambda>r. rec_id r = i) xs = Some r" by blast
    have "x # xs = (x # pre) @ r # post \<and> rec_id r = i
      \<and> filter (\<lambda>r. rec_id r \<noteq> i) (x # xs) = (x # pre) @ post
      \<and> find (\<lambda>r. rec_id r = i) (x # xs) = Some r"
      using False pp by simp
    then show ?thesis by blast
  qed
qed

lemma onDelete_fields:
  "recordings (onDelete i s) = filter (\<lambda>r. rec_id r \<noteq> i) (recordings s)
   \<and> revokedUrls (onDelete i s) =
       (case find (\<lambda>r. rec_id r = i) (recordings s) of
          None \<Rightarrow> revokedUrls s | Some r \<Rightarrow> url r # revokedUrls s)
   \<and> mimeType (onDelete i s) = mimeType s"
  by (simp add: onDelete_def media_pause_def cleanupPlaybackResources_def Let_def split: option.split)

lemma onDelete_active:
  "activeId s = Some i \<Longrightarrow>
   activeId (onDelete i s) = None \<and> \<not> isPlaying (onDelete i s) \<and> playProgress (onDelete i s) = 0
   \<and> playbackAudio (onDelete i s) = None
   \<and> detachedAudio (onDelete i s) =
       (case playbackAudio s of None \<Rightarrow> [] | Some el \<Rightarrow> [el\<lparr>paused := True\<rparr>]) @ detachedAudio s
   \<and> playback_torn_down (onDelete i s)"
  by (simp add: onDelete_def media_pause_def cleanupPlaybackResources_def playback_torn_down_def
      paused_update_id Let_def split: option.split)

lemma onDelete_other:
  "activeId s \<noteq> Some i \<Longrightarrow>
   activeId (onDelete i s) = activeId s \<and> isPlaying (onDelete i s) = isPlaying s
   \<and> playProgress (onDelete i s) = playProgress s
   \<and> playbackAudio (onDelete i s) = playbackAudio s
   \<and> detachedAudio (onDelete i s) = detachedAudio s
   \<and> playbackRafId (onDelete i s) = playbackRafId s
   \<and> playbackSource (onDelete i s) = playbackSource s
   \<and> playbackAnalyser (onDelete i s) = playbackAnalyser s
   \<and> playbackDataArray (onDelete i s) = playbackDataArray s"
  by (simp add: onDelete_def Let_def)

lemma onDelete_playProgress:
  "playProgress (onDelete i s) = (if activeId s = Some i then 0 else playProgress s)"
  using onDelete_active[of s i] onDelete_other[of s i] by simp

lemma media_timeupdate_fields:
  "playProgress (media_timeupdate c d s) =
      (case playbackAudio s of None \<Rightarrow> playProgress s | Some el \<Rightarrow> progress_of c d)
   \<and> playbackAudio (media_timeupdate c d s) = map_option (\<lambda>el. el\<lparr>currentTime := c\<rparr>) (playbackAudio s)
   \<and> isPlaying (media_timeupdate c d s) = isPlaying s
   \<and> activeId (media_timeupdate c d s) = activeId s
   \<and> recordings (media_timeupdate c d s) = recordings s
   \<and> detachedAudio (media_timeupdate c d s) = detachedAudio s
   \<and> mimeType (media_timeupdate c d s) = mimeType s"
  by (simp add: media_timeupdate_def timeupdate_listener_def media_seek_def split: option.split)

lemma media_ended_fields:
  "playProgress (media_ended s) =
      (case playbackAudio s of None \<Rightarrow> playProgress s
       | Some el \<Rightarrow> if paused el then playProgress s else 100)
   \<and> playbackAudio (media_ended s) = map_option (\<lambda>el. el\<lparr>paused := True\<rparr>) (playbackAudio s)
   \<and> isPlaying (media_ended s) =
       (isPlaying s \<and> (case playbackAudio s of None \<Rightarrow> True | Some el \<Rightarrow> paused el))
   \<and> activeId (media_ended s) = activeId s
   \<and> recordings (media_ended s) = recordings s
   \<and> detachedAudio (media_ended s) = detachedAudio s
   \<and> mimeType (media_ended s) = mimeType s"
  by (simp add: media_ended_def ended_listener_def media_pause_def cleanupPlaybackResources_def
      paused_update_id split: option.split)

section \<open>The playback slot stays consistent\<close>

text \<open>
  \<open>slot_ok\<close> holds at the first render and every handler and every event of the platform
  keeps it, in whatever state it is called.
\<close>

text \<open>The slot invariant as three facts.\<close>

lemma slot_okI:
  "isPlaying s = (case playbackAudio s of None \<Rightarrow> False | Some el \<Rightarrow> \<not> paused el) \<Longrightarrow>
   (isPlaying s \<Longrightarrow> \<exists>i. activeId s = Some i \<and> i \<in> rec_id ` set (recordings s)) \<Longrightarrow>
   list_all paused (detachedAudio s) \<Longrightarrow> slot_ok s"
  by (auto simp: slot_ok_def split: option.splits)

lemma slot_okD:
  assumes "slot_ok s"
  shows "isPlaying s = (case playbackAudio s of None \<Rightarrow> False | Some el \<Rightarrow> \<not> paused el)"
    and "isPlaying s \<Longrightarrow> \<exists>i. activeId s = Some i \<and> i \<in> rec_id ` set (recordings s)"
    and "list_all paused (detachedAudio s)"
  using assms by (auto simp: slot_ok_def split: option.splits)

lemma slot_ok_init: "slot_ok (init p)"
  by (simp add: slot_ok_def init_def)

lemma slot_ok_startRecording: "slot_ok s \<Longrightarrow> slot_ok (startRecording p a s)"
  by (rule slot_okI) (simp_all add: startRecording_frame slot_okD)

lemma slot_ok_stopRecording: "slot_ok s \<Longrightarrow> slot_ok (stopRecording s)"
  by (rule slot_okI) (simp_all add: stopRecording_frame slot_okD)

lemma slot_ok_ondataavailable: "slot_ok s \<Longrightarrow> slot_ok (ondataavailable d s)"
  by (rule slot_okI) (simp_all add: ondataavailable_frame slot_okD)

lemma slot_ok_recorder_onstop: "slot_ok s \<Longrightarrow> slot_ok (recorder_onstop a s)"
proof (rule slot_okI)
  assume ok: "slot_ok s"
  show "isPlaying (recorder_onstop a s) =
      (case playbackAudio (recorder_onstop a s) of None \<Rightarrow> False | Some el \<Rightarrow> \<not> paused el)"
    using slot_okD(1)[OF ok] by (simp add: recorder_onstop_frame)
  show "list_all paused (detachedAudio (recorder_onstop a s))"
    using slot_okD(3)[OF ok] by (simp add: recorder_onstop_frame)
  assume "isPlaying (recorder_onstop a s)"
  then have "isPlaying s" by (simp add: recorder_onstop_frame)
  from slot_okD(2)[OF ok this] obtain i where "activeId s = Some i" "i \<in> rec_id ` set (recordings s)"
    by blast
  then show "\<exists>i. activeId (recorder_onstop a s) = Some i \<and> i \<in> rec_id ` set (recordings (recorder_onstop a s))"
    by (auto simp add: recorder_onstop_frame recorder_onstop_recordings split: option.splits)
qed

lemma slot_ok_onPlay: "slot_ok s \<Longrightarrow> slot_ok (onPlay a i s)"
proof -
  assume ok: "slot_ok s"
  note d = slot_okD[OF ok]
  show ?thesis
  proof (cases "activeId s = Some i \<and> isPlaying s")
    case True
    then obtain el where el: "playbackAudio s = Some el" "\<not> paused el"
      using d(1) by (auto split: option.splits)
    have "onPlay a i s = (media_pause s)\<lparr>isPlaying := False\<rparr>"
      using True el by (simp add: onPlay_pause_branch)
    then show ?thesis using el d(3) by (intro slot_okI) (simp_all add: media_pause_fields)
  next
    case False
    note sw = onPlay_switch_branch[OF False, of a]
    have np: "\<not> isPlaying (stop_previous i s)"
      using d(1) by (auto simp: stop_previous_fields split: option.splits)
    show ?thesis
    proof (cases "find (\<lambda>r. rec_id r = i) (recordings s)")
      case None
      then have "onPlay a i s = stop_previous i s" using sw by simp
      then show ?thesis using np d(3)
        by (intro slot_okI) (auto simp: stop_previous_fields split: option.splits)
    next
      case (Some r)
      then have e: "onPlay a i s = attach_and_play a r (stop_previous i s)" using sw by simp
      have i: "i \<in> rec_id ` set (recordings s)" using find_rec_id[OF Some] by auto
      show ?thesis unfolding e using np d(3) i
        by (intro slot_okI)
          (auto simp: attach_and_play_fields stop_previous_fields split: option.splits)
    qed
  qed
qed

lemma slot_ok_onDelete: "slot_ok s \<Longrightarrow> slot_ok (onDelete i s)"
proof -
  assume ok: "slot_ok s"
  note d = slot_okD[OF ok]
  show ?thesis
  proof (cases "activeId s = Some i")
    case True
    show ?thesis using d(3)
      by (intro slot_okI) (auto simp: onDelete_active[OF True] split: option.splits)
  next
    case False
    show ?thesis using d False
      by (intro slot_okI) (auto simp: onDelete_other[OF False] onDelete_fields)
  qed
qed

lemma slot_ok_media_timeupdate: "slot_ok s \<Longrightarrow> slot_ok (media_timeupdate c d s)"
proof -
  assume ok: "slot_ok s"
  note d = slot_okD[OF ok]
  show ?thesis using d
    by (intro slot_okI) (auto simp: media_timeupdate_fields split: option.splits)
qed

lemma slot_ok_media_ended: "slot_ok s \<Longrightarrow> slot_ok (media_ended s)"
proof -
  assume ok: "slot_ok s"
  note d = slot_okD[OF ok]
  show ?thesis using d
    by (intro slot_okI) (auto simp: media_ended_fields split: option.splits)
qed

lemma slot_ok_fire: "slot_ok s \<Longrightarrow> slot_ok (fire p e s)"
  by (cases e) (simp_all add: slot_ok_startRecording slot_ok_stopRecording slot_ok_ondataavailable
      slot_ok_recorder_onstop slot_ok_onPlay slot_ok_onDelete slot_ok_media_timeupdate slot_ok_media_ended)

lemma slot_ok_run: "slot_ok s \<Longrightarrow> slot_ok (run p es s)"
  by (induction es arbitrary: s) (simp_all add: slot_ok_fire)

lemma no_paused_playing: "list_all paused xs \<Longrightarrow> filter (\<lambda>e. \<not> paused e) xs = []"
  by (induction xs) simp_all

lemma playing_elements_slot:
  "list_all paused (detachedAudio s) \<Longrightarrow>
   playing_elements s =
     (case playbackAudio s of None \<Rightarrow> [] | Some el \<Rightarrow> if paused el then [] else [el])"
  by (simp add: playing_elements_def all_audio_def no_paused_playing split: option.split)

lemma slot_ok_stop_previous:
  assumes "slot_ok s"
  shows "\<not> isPlaying (stop_previous i s) \<and> playing_elements (stop_previous i s) = []
    \<and> list_all paused (detachedAudio (stop_previous i s))"
proof -
  note d = slot_okD[OF assms]
  have np: "\<not> isPlaying (stop_previous i s)"
    using d(1) by (auto simp: stop_previous_fields split: option.splits)
  have dp: "list_all paused (detachedAudio (stop_previous i s))"
    using d(3) by (simp add: stop_previous_fields)
  have "playing_elements (stop_previous i s) = []"
    using playing_elements_slot[OF dp] by (simp add: stop_previous_fields split: option.split)
  then show ?thesis using np dp by simp
qed

section \<open>The chosen MIME type\<close>

text \<open>
  The loop returns the first supported candidate, and nothing writes the memoised value.
\<close>

lemma pick_loop_first:
  "\<exists>t\<in>set cs. f t \<Longrightarrow>
   \<exists>pre post. cs = pre @ pick_loop (Some f) cs # post \<and> f (pick_loop (Some f) cs)
      \<and> (\<forall>c\<in>set pre. \<not> f c)"
proof (induction cs)
  case Nil
  then show ?case by simp
next
  case (Cons c cs)
  show ?case
  proof (cases "f c")
    case True
    then have "c # cs = [] @ pick_loop (Some f) (c # cs) # cs \<and> f (pick_loop (Some f) (c # cs))
        \<and> (\<forall>x\<in>set []. \<not> f x)" by simp
    then show ?thesis by blast
  next
    case False
    then have "\<exists>t\<in>set cs. f t" using Cons.prems by auto
    from Cons.IH[OF this] obtain pre post where
      pp: "cs = pre @ pick_loop (Some f) cs # post" "f (pick_loop (Some f) cs)" "\<forall>x\<in>set pre. \<not> f x"
      by blast
    have "c # cs = (c # pre) @ pick_loop (Some f) (c # cs) # post"
      using False pp(1) by simp
    moreover have "f (pick_loop (Some f) (c # cs))" using False pp(2) by simp
    moreover have "\<forall>x\<in>set (c # pre). \<not> f x" using False pp(3) by simp
    ultimately show ?thesis by blast
  qed
qed

lemma pick_loop_none: "\<forall>t\<in>set cs. \<not> f t \<Longrightarrow> pick_loop (Some f) cs = ''''"
  by (induction cs) simp_all

lemma pick_loop_missing: "pick_loop None cs = ''''"
  by (induction cs) simp_all

lemma mimeType_init: "mimeType (init p) = pickBestAudioMime p"
  by (simp add: init_def supportsMediaRecorder_def pickBestAudioMime_def)

lemma mimeType_fire: "mimeType (fire p e s) = mimeType s"
  by (cases e) (simp_all add: startRecording_frame stopRecording_frame ondataavailable_frame
      recorder_onstop_frame onPlay_mimeType onDelete_fields media_timeupdate_fields media_ended_fields)

lemma mimeType_run: "mimeType (run p es s) = mimeType s"
  by (induction es arbitrary: s) (simp_all add: mimeType_fire)

section \<open>The stored progress\<close>

text \<open>
  What the \<open>timeupdate\<close> listener stores, and when it is a percentage.
\<close>

lemma progress_of_explicit:
  "progress_of cur dur =
     (case dur of Finite d \<Rightarrow> if d = 0 then 0 else cur / d * 100
      | NaN \<Rightarrow> 0 | PosInfinity \<Rightarrow> 0 | NegInfinity \<Rightarrow> 0)"
  by (cases dur) (simp_all add: progress_of_def truthy_def)

lemma progress_of_range:
  assumes "position_ok (TimeUpdate cur dur)"
  shows "0 \<le> progress_of cur dur \<and> progress_of cur dur \<le> 100"
proof (cases dur)
  case (Finite d)
  then have c: "0 \<le> cur" "cur \<le> d" using assms by simp_all
  show ?thesis
  proof (cases "d = 0")
    case True
    then show ?thesis using Finite by (simp add: progress_of_explicit)
  next
    case False
    then have d: "0 < d" using c by simp
    have "0 \<le> cur / d * 100 \<and> cur / d * 100 \<le> 100" using c d by (simp add: field_simps)
    then show ?thesis using Finite False by (simp only: progress_of_explicit jsnum.case if_False)
  qed
qed (simp_all add: progress_of_explicit)

lemma progress_in_range_fire:
  assumes "position_ok e" "progress_in_range s"
  shows "progress_in_range (fire p e s)"
proof (cases e)
  case (TimeUpdate cur dur)
  then show ?thesis using assms progress_of_range[of cur dur]
    by (simp add: progress_in_range_def media_timeupdate_fields split: option.split)
next
  case Ended
  then show ?thesis using assms
    by (simp add: progress_in_range_def media_ended_fields split: option.split)
qed (use assms in \<open>simp_all add: progress_in_range_def startRecording_frame stopRecording_frame
      ondataavailable_frame recorder_onstop_frame onPlay_playProgress onDelete_playProgress\<close>)

lemma progress_in_range_run:
  "list_all position_ok es \<Longrightarrow> progress_in_range s \<Longrightarrow> progress_in_range (run p es s)"
  by (induction es arbitrary: s) (simp_all add: progress_in_range_fire)

section \<open>The concrete session, evaluated\<close>

text \<open>
  The states of the concrete session, computed by rewriting with the definitions.
\<close>

lemmas handler_defs = startRecording_def requestMicrophone_def start_recorder_def
  ensureAudioContext_def setupRecordingAnalyser_def setupPlaybackAnalyser_def
  cleanupRecordingResources_def cleanupPlaybackResources_def
  supportsMediaRecorder_def supportsGetUserMedia_def
  ondataavailable_def stopRecording_def recorder_onstop_def onstop_try_def
  measureBlobDuration_def newRec_def new_id_def
  media_pause_def media_seek_def media_play_def new_audio_def stop_previous_def
  attach_and_play_def onPlay_def onDelete_def progress_of_def truthy_def
  timeupdate_listener_def media_timeupdate_def ended_listener_def media_ended_def

lemmas example_defs = quiet_graph_def start_ok_def play_ok_def
  first_stop_def second_stop_def failing_stop_def

lemma init_webm: "init webm_platform =
     \<lparr>permission = Prompt, isRecording = False, recordings = [], error = '''',
      activeId = None, isPlaying = False, playProgress = 0,
      mimeType = ''audio/webm'',
      mediaRecorder = None, mediaStream = False, recordedChunks = [],
      audioContext = False, analyser = False, dataArray = False, sourceNode = False,
      rafId = False, playbackAudio = None, playbackSource = False,
      playbackAnalyser = False, playbackDataArray = False, playbackRafId = False,
      detachedAudio = [], revokedUrls = []\<rparr>"
  by (simp add: init_def pickBestAudioMime_def candidates_def webm_platform_def webm_or_ogg_def
      supportsMediaRecorder_def)

lemma webm_supports: "hasMediaRecorder webm_platform" "hasGetUserMedia webm_platform"
  by (simp_all add: webm_platform_def)

lemma stopped_first_value: "stopped_first =
   \<lparr>permission = Granted, isRecording = True, recordings = [], error = '''',
    activeId = None, isPlaying = False, playProgress = 0,
    mimeType = ''audio/webm'',
    mediaRecorder =
      Some \<lparr>phase = Finalizing, optMimeType = Some ''audio/webm''\<rparr>,
    mediaStream = True, recordedChunks = [''abc''], audioContext = True,
    analyser = True, dataArray = True, sourceNode = True, rafId = True,
    playbackAudio = None, playbackSource = False, playbackAnalyser = False,
    playbackDataArray = False, playbackRafId = False, detachedAudio = [],
    revokedUrls = []\<rparr>"
  by (simp add: stopped_first_def init_webm webm_supports handler_defs example_defs Let_def)

lemma show_nat_first: "show_nat 1700000000000 = ''1700000000000''"
  by (simp add: show_nat.simps digit_char_def)

lemma show_nat_second: "show_nat 1700000060000 = ''1700000060000''"
  by (simp add: show_nat.simps digit_char_def)

lemma one_recording_value: "one_recording =
   \<lparr>permission = Granted, isRecording = False, recordings = [first_rec], error = '''',
    activeId = None, isPlaying = False, playProgress = 0,
    mimeType = ''audio/webm'',
    mediaRecorder = None,
    mediaStream = False, recordedChunks = [''abc''], audioContext = True,
    analyser = False, dataArray = False, sourceNode = False, rafId = False,
    playbackAudio = None, playbackSource = False, playbackAnalyser = False,
    playbackDataArray = False, playbackRafId = False, detachedAudio = [],
    revokedUrls = [''blob:2'']\<rparr>"
  by (simp add: one_recording_def stopped_first_value handler_defs example_defs first_rec_def
      show_nat_first Let_def)

lemma stopped_second_value: "stopped_second =
   \<lparr>permission = Granted, isRecording = True, recordings = [first_rec], error = '''',
    activeId = None, isPlaying = False, playProgress = 0,
    mimeType = ''audio/webm'',
    mediaRecorder =
      Some \<lparr>phase = Finalizing, optMimeType = Some ''audio/webm''\<rparr>,
    mediaStream = True, recordedChunks = [''defg''], audioContext = True,
    analyser = True, dataArray = True, sourceNode = True, rafId = True,
    playbackAudio = None, playbackSource = False, playbackAnalyser = False,
    playbackDataArray = False, playbackRafId = False, detachedAudio = [],
    revokedUrls = [''blob:2'']\<rparr>"
  by (simp add: stopped_second_def one_recording_value webm_supports handler_defs example_defs Let_def)

lemma two_recordings_value: "two_recordings =
   \<lparr>permission = Granted, isRecording = False, recordings = [second_rec, first_rec], error = '''',
    activeId = None, isPlaying = False, playProgress = 0,
    mimeType = ''audio/webm'',
    mediaRecorder = None,
    mediaStream = False, recordedChunks = [''defg''], audioContext = True,
    analyser = False, dataArray = False, sourceNode = False, rafId = False,
    playbackAudio = None, playbackSource = False, playbackAnalyser = False,
    playbackDataArray = False, playbackRafId = False, detachedAudio = [],
    revokedUrls = [''blob:4'', ''blob:2'']\<rparr>"
  by (simp add: two_recordings_def stopped_second_def one_recording_value webm_supports handler_defs example_defs
      second_rec_def show_nat_second Let_def)

lemma playing_first_value: "playing_first =
   \<lparr>permission = Granted, isRecording = False, recordings = [second_rec, first_rec], error = '''',
    activeId = Some ''1700000000000-k3x9q'', isPlaying = True, playProgress = 50,
    mimeType = ''audio/webm'',
    mediaRecorder = None,
    mediaStream = False, recordedChunks = [''defg''], audioContext = True,
    analyser = False, dataArray = False, sourceNode = False, rafId = False,
    playbackAudio = Some \<lparr>src = ''blob:1'', paused = False, currentTime = 5\<rparr>,
    playbackSource = True, playbackAnalyser = True,
    playbackDataArray = True, playbackRafId = True, detachedAudio = [],
    revokedUrls = [''blob:4'', ''blob:2'']\<rparr>"
  by (simp add: playing_first_def two_recordings_value handler_defs example_defs
      first_rec_def second_rec_def Let_def)

lemma twin_recordings_value: "twin_recordings =
   \<lparr>permission = Granted, isRecording = False, recordings = [twin_rec, first_rec], error = '''',
    activeId = None, isPlaying = False, playProgress = 0,
    mimeType = ''audio/webm'',
    mediaRecorder = None,
    mediaStream = False, recordedChunks = [''defg''], audioContext = True,
    analyser = False, dataArray = False, sourceNode = False, rafId = False,
    playbackAudio = None, playbackSource = False, playbackAnalyser = False,
    playbackDataArray = False, playbackRafId = False, detachedAudio = [],
    revokedUrls = [''blob:8'', ''blob:2'']\<rparr>"
  by (simp add: twin_recordings_def stopped_second_value handler_defs twin_stop_def
      twin_rec_def show_nat_first Let_def)

section \<open>The claims\<close>

text \<open>
  Claim C1, against the code. \<open>onPlay\<close> on the recording that is active and playing pauses
  its element in place: the element keeps its position, the progress and the visualiser
  stay, and nothing but the element's \<open>paused\<close> flag and \<open>isPlaying\<close> changes. A second
  \<open>onPlay\<close> on the same recording does not resume: it takes the branch for switching the
  track, so that the progress is 0, the paused element is rewound to 0 and dropped, and a
  new element for the same recording starts at position 0.
\<close>

theorem togglePlay_pause_then_restart:
  assumes "activeId s = Some i" and "isPlaying s" and "playbackAudio s = Some el"
    and "find (\<lambda>r. rec_id r = i) (recordings s) = Some r"
  shows "onPlay a i s = s\<lparr>playbackAudio := Some (el\<lparr>paused := True\<rparr>), isPlaying := False\<rparr>
    \<and> playProgress (onPlay a i s) = playProgress s
    \<and> playProgress (onPlay b i (onPlay a i s)) = 0
    \<and> playbackAudio (onPlay b i (onPlay a i s)) =
        Some \<lparr>src = url r, paused = (playResult b = PlayNotAllowed), currentTime = 0\<rparr>
    \<and> detachedAudio (onPlay b i (onPlay a i s)) =
        el\<lparr>paused := True, currentTime := 0\<rparr> # detachedAudio s"
proof -
  have p: "onPlay a i s = s\<lparr>playbackAudio := Some (el\<lparr>paused := True\<rparr>), isPlaying := False\<rparr>"
    using assms(1,2,3) by (simp add: onPlay_pause_branch media_pause_def paused_update_id)
  define s1 where "s1 = onPlay a i s"
  have f1: "activeId s1 = Some i" "\<not> isPlaying s1"
    "playbackAudio s1 = Some (el\<lparr>paused := True\<rparr>)" "detachedAudio s1 = detachedAudio s"
    "recordings s1 = recordings s" "playProgress s1 = playProgress s"
    by (simp_all add: s1_def p assms(1))
  have branch: "\<not> (activeId s1 = Some i \<and> isPlaying s1)" using f1 by simp
  have e: "onPlay b i s1 = attach_and_play b r (stop_previous i s1)"
    using onPlay_switch_branch[OF branch, of b] assms(4) f1(5) by simp
  have "playProgress (onPlay b i s1) = 0
    \<and> playbackAudio (onPlay b i s1) =
        Some \<lparr>src = url r, paused = (playResult b = PlayNotAllowed), currentTime = 0\<rparr>
    \<and> detachedAudio (onPlay b i s1) = el\<lparr>paused := True, currentTime := 0\<rparr> # detachedAudio s"
    by (simp add: e attach_and_play_fields stop_previous_fields f1)
  then show ?thesis using p f1(6) by (simp add: s1_def)
qed

theorem togglePlay_pause_then_restart_witness:
  "activeId playing_first = Some ''1700000000000-k3x9q'' \<and> isPlaying playing_first
   \<and> playbackAudio playing_first = Some \<lparr>src = ''blob:1'', paused = False, currentTime = 5\<rparr>
   \<and> find (\<lambda>r. rec_id r = ''1700000000000-k3x9q'') (recordings playing_first) = Some first_rec
   \<and> playProgress playing_first = 50
   \<and> playbackAudio (onPlay play_ok ''1700000000000-k3x9q'' playing_first)
       = Some \<lparr>src = ''blob:1'', paused = True, currentTime = 5\<rparr>
   \<and> playProgress (onPlay play_ok ''1700000000000-k3x9q'' playing_first) = 50
   \<and> playProgress (onPlay play_ok ''1700000000000-k3x9q''
        (onPlay play_ok ''1700000000000-k3x9q'' playing_first)) = 0
   \<and> playbackAudio (onPlay play_ok ''1700000000000-k3x9q''
        (onPlay play_ok ''1700000000000-k3x9q'' playing_first))
       = Some \<lparr>src = ''blob:1'', paused = False, currentTime = 0\<rparr>
   \<and> detachedAudio (onPlay play_ok ''1700000000000-k3x9q''
        (onPlay play_ok ''1700000000000-k3x9q'' playing_first))
       = [\<lparr>src = ''blob:1'', paused = True, currentTime = 0\<rparr>]"
proof -
  have h1: "activeId playing_first = Some ''1700000000000-k3x9q''"
    by (simp add: playing_first_value)
  have h2: "isPlaying playing_first" by (simp add: playing_first_value)
  have h3: "playbackAudio playing_first = Some \<lparr>src = ''blob:1'', paused = False, currentTime = 5\<rparr>"
    by (simp add: playing_first_value)
  have h4: "find (\<lambda>r. rec_id r = ''1700000000000-k3x9q'') (recordings playing_first) = Some first_rec"
    by (simp add: playing_first_value first_rec_def second_rec_def)
  have v: "playProgress playing_first = 50" by (simp add: playing_first_value)
  have d: "detachedAudio playing_first = []" by (simp add: playing_first_value)
  have u: "url first_rec = ''blob:1''" by (simp add: first_rec_def)
  have r: "playResult play_ok \<noteq> PlayNotAllowed" by (simp add: play_ok_def)
  note t = togglePlay_pause_then_restart[OF h1 h2 h3 h4, of play_ok play_ok]
  have a: "playbackAudio (onPlay play_ok ''1700000000000-k3x9q'' playing_first)
       = Some \<lparr>src = ''blob:1'', paused = True, currentTime = 5\<rparr>"
    using t by simp
  have b: "playProgress (onPlay play_ok ''1700000000000-k3x9q'' playing_first) = 50"
    using t v by simp
  have c: "playProgress (onPlay play_ok ''1700000000000-k3x9q''
        (onPlay play_ok ''1700000000000-k3x9q'' playing_first)) = 0"
    using t by blast
  have e: "playbackAudio (onPlay play_ok ''1700000000000-k3x9q''
        (onPlay play_ok ''1700000000000-k3x9q'' playing_first))
       = Some \<lparr>src = ''blob:1'', paused = False, currentTime = 0\<rparr>"
  proof -
    have "playbackAudio (onPlay play_ok ''1700000000000-k3x9q''
        (onPlay play_ok ''1700000000000-k3x9q'' playing_first))
       = Some \<lparr>src = url first_rec, paused = (playResult play_ok = PlayNotAllowed), currentTime = 0\<rparr>"
      using t by blast
    then show ?thesis using u r by simp
  qed
  have f: "detachedAudio (onPlay play_ok ''1700000000000-k3x9q''
        (onPlay play_ok ''1700000000000-k3x9q'' playing_first))
       = [\<lparr>src = ''blob:1'', paused = True, currentTime = 0\<rparr>]"
  proof -
    have "detachedAudio (onPlay play_ok ''1700000000000-k3x9q''
        (onPlay play_ok ''1700000000000-k3x9q'' playing_first))
       = \<lparr>src = ''blob:1'', paused = False, currentTime = 5\<rparr>\<lparr>paused := True, currentTime := 0\<rparr>
         # detachedAudio playing_first"
      using t by blast
    then show ?thesis using d by simp
  qed
  show ?thesis using h1 h2 h3 h4 v a b c e f by blast
qed

text \<open>
  Claim C2, as the code has it. When the probe of the duration reports an error, the
  recording is kept with duration 0: here the second recording of the session is appended
  although its probe failed.
\<close>

theorem onstop_probe_error_counterexample:
  "isRecording stopped_second \<and> probe second_stop = ProbeError
   \<and> recordings stopped_second = [first_rec]
   \<and> recordings (recorder_onstop second_stop stopped_second) = [second_rec, first_rec]
   \<and> recordings (recorder_onstop second_stop stopped_second) \<noteq> recordings stopped_second"
proof -
  have a: "recordings (recorder_onstop second_stop stopped_second) = [second_rec, first_rec]"
    using two_recordings_value by (simp add: two_recordings_def)
  have b: "recordings stopped_second = [first_rec] \<and> isRecording stopped_second"
    by (simp add: stopped_second_value)
  show ?thesis using a b by (simp add: second_stop_def)
qed

text \<open>
  Claim C2, amended. When assembling the blob throws, or setting up the probe throws, no
  recording is appended and the failure is reported. When the probe reports an error, the
  recording is appended with duration 0. In every case the capture resources are released
  and the session is idle again.
\<close>

theorem onstop_processing_failure:
  "(assembleThrows a \<or> probe a = ProbeThrows \<longrightarrow>
      recordings (recorder_onstop a s) = recordings s
      \<and> error (recorder_onstop a s) = ''Failed to process recording.'')
   \<and> (\<not> assembleThrows a \<and> probe a = ProbeError \<longrightarrow>
      recordings (recorder_onstop a s) = newRec a s 0 # recordings s
      \<and> duration (hd (recordings (recorder_onstop a s))) = 0
      \<and> error (recorder_onstop a s) = error s)
   \<and> capture_released (recorder_onstop a s)
   \<and> \<not> isRecording (recorder_onstop a s)"
proof -
  have thrown: "assembleThrows a \<or> probe a = ProbeThrows \<Longrightarrow>
      recordings (recorder_onstop a s) = recordings s
      \<and> error (recorder_onstop a s) = ''Failed to process recording.''"
    by (auto simp: recorder_onstop_recordings recorder_onstop_error measureBlobDuration_def)
  have soft: "\<not> assembleThrows a \<and> probe a = ProbeError \<Longrightarrow>
      recordings (recorder_onstop a s) = newRec a s 0 # recordings s
      \<and> duration (hd (recordings (recorder_onstop a s))) = 0
      \<and> error (recorder_onstop a s) = error s"
    by (simp add: recorder_onstop_recordings recorder_onstop_error measureBlobDuration_def newRec_def)
  show ?thesis using thrown soft recorder_onstop_released[of a s] by blast
qed

theorem onstop_processing_failure_witness:
  "assembleThrows failing_stop
   \<and> recordings (recorder_onstop failing_stop stopped_second) = [first_rec]
   \<and> error (recorder_onstop failing_stop stopped_second) = ''Failed to process recording.''
   \<and> capture_released (recorder_onstop failing_stop stopped_second)
   \<and> \<not> isRecording (recorder_onstop failing_stop stopped_second)
   \<and> \<not> assembleThrows second_stop \<and> probe second_stop = ProbeError
   \<and> recordings (recorder_onstop second_stop stopped_second)
       = newRec second_stop stopped_second 0 # [first_rec]
   \<and> capture_released (recorder_onstop second_stop stopped_second)
   \<and> \<not> isRecording (recorder_onstop second_stop stopped_second)"
proof -
  have b: "recordings stopped_second = [first_rec]"
    by (simp add: stopped_second_value)
  have f: "assembleThrows failing_stop" by (simp add: failing_stop_def)
  have g: "\<not> assembleThrows second_stop \<and> probe second_stop = ProbeError"
    by (simp add: second_stop_def)
  show ?thesis
    using onstop_processing_failure[of failing_stop stopped_second]
      onstop_processing_failure[of second_stop stopped_second] b f g
    by simp
qed

text \<open>
  Claim C3, as the code has it. On a browser that has MediaRecorder and getUserMedia but
  supports none of the candidate types, the start button is enabled, the memoised type is
  empty, and a start creates a recorder with the platform's default type and records.
\<close>

theorem no_codec_still_records_counterexample:
  "canRecord no_codec_platform
   \<and> pickBestAudioMime no_codec_platform = ''''
   \<and> mimeType (init no_codec_platform) = ''''
   \<and> isRecording (startRecording no_codec_platform start_ok (init no_codec_platform))
   \<and> mediaRecorder (startRecording no_codec_platform start_ok (init no_codec_platform))
       = Some \<lparr>phase = Capturing, optMimeType = None\<rparr>"
proof -
  have c: "canRecord no_codec_platform"
    by (simp add: canRecord_def supportsMediaRecorder_def supportsGetUserMedia_def no_codec_platform_def)
  have m: "pickBestAudioMime no_codec_platform = ''''"
    by (simp add: pickBestAudioMime_def no_codec_platform_def candidates_def nothing_supported_def)
  have i: "mimeType (init no_codec_platform) = ''''" using m by (simp add: mimeType_init)
  have a: "micGranted start_ok \<and> \<not> recorderCtorThrows start_ok
    \<and> \<not> contextThrows (startGraph start_ok) \<and> \<not> nodeThrows (startGraph start_ok)
    \<and> \<not> recorderStartThrows start_ok"
    by (simp add: start_ok_def quiet_graph_def)
  show ?thesis
    using startRecording_starts[of no_codec_platform "init no_codec_platform" start_ok] c m i a
    by simp
qed

text \<open>
  Claim C3, amended. The type chosen at construction is the first candidate, in the order of
  the list, that the encoder supports, and the empty string when it supports none; no
  sequence of operations changes it. A start that nothing prevents (MediaRecorder and
  getUserMedia exist, the microphone is there, nothing throws) creates a recorder and
  records, with the chosen type as its option, or with no such option when the chosen type
  is empty. Recording is disabled, a start creating no recorder and leaving the session as
  it was, when MediaRecorder or getUserMedia is missing.
\<close>

theorem mime_selection:
  "(hasMediaRecorder p \<and> isTypeSupported p = Some f \<and> (\<exists>t\<in>set candidates. f t) \<longrightarrow>
      (\<exists>pre post. candidates = pre @ pickBestAudioMime p # post
         \<and> f (pickBestAudioMime p) \<and> (\<forall>c\<in>set pre. \<not> f c)))
   \<and> (isTypeSupported p = Some f \<and> (\<forall>t\<in>set candidates. \<not> f t) \<longrightarrow> pickBestAudioMime p = '''')
   \<and> mimeType (run p es (init p)) = pickBestAudioMime p
   \<and> (canRecord p \<and> (mediaStream s \<or> micGranted a) \<and> \<not> recorderCtorThrows a
       \<and> \<not> contextThrows (startGraph a) \<and> \<not> nodeThrows (startGraph a)
       \<and> \<not> recorderStartThrows a \<longrightarrow>
        isRecording (startRecording p a s)
        \<and> mediaRecorder (startRecording p a s) =
            Some \<lparr>phase = Capturing,
                  optMimeType = (if mimeType s = '''' then None else Some (mimeType s))\<rparr>)
   \<and> (\<not> canRecord p \<longrightarrow>
        mediaRecorder (startRecording p a s) = mediaRecorder s
        \<and> isRecording (startRecording p a s) = isRecording s)"
proof -
  have first: "hasMediaRecorder p \<and> isTypeSupported p = Some f \<and> (\<exists>t\<in>set candidates. f t) \<longrightarrow>
      (\<exists>pre post. candidates = pre @ pickBestAudioMime p # post
         \<and> f (pickBestAudioMime p) \<and> (\<forall>c\<in>set pre. \<not> f c))"
    using pick_loop_first[of candidates f] by (simp add: pickBestAudioMime_def)
  have none: "isTypeSupported p = Some f \<and> (\<forall>t\<in>set candidates. \<not> f t) \<longrightarrow> pickBestAudioMime p = ''''"
    using pick_loop_none[of candidates f] by (simp add: pickBestAudioMime_def)
  have locked: "mimeType (run p es (init p)) = pickBestAudioMime p"
    by (simp add: mimeType_run mimeType_init)
  show ?thesis
    using first none locked startRecording_starts[of p s a] startRecording_unsupported[of p a s]
    by blast
qed

theorem mime_selection_witness:
  "hasMediaRecorder webm_platform \<and> isTypeSupported webm_platform = Some webm_or_ogg
   \<and> webm_or_ogg ''audio/ogg''
   \<and> webm_or_ogg (pickBestAudioMime webm_platform)
   \<and> pickBestAudioMime webm_platform = ''audio/webm''
   \<and> mimeType playing_first = pickBestAudioMime webm_platform
   \<and> canRecord webm_platform \<and> micGranted start_ok
   \<and> isRecording (startRecording webm_platform start_ok (init webm_platform))
   \<and> mediaRecorder (startRecording webm_platform start_ok (init webm_platform))
       = Some \<lparr>phase = Capturing, optMimeType = Some ''audio/webm''\<rparr>
   \<and> isTypeSupported no_codec_platform = Some nothing_supported
   \<and> pickBestAudioMime no_codec_platform = ''''
   \<and> \<not> canRecord no_recorder_platform
   \<and> mediaRecorder (startRecording no_recorder_platform start_ok (init no_recorder_platform)) = None
   \<and> \<not> isRecording (startRecording no_recorder_platform start_ok (init no_recorder_platform))"
proof -
  have p1: "hasMediaRecorder webm_platform \<and> isTypeSupported webm_platform = Some webm_or_ogg"
    by (simp add: webm_platform_def)
  have p2: "webm_or_ogg ''audio/ogg''" by (simp add: webm_or_ogg_def)
  have p3: "\<exists>t\<in>set candidates. webm_or_ogg t" using p2 by (auto simp: candidates_def)
  have sup: "webm_or_ogg (pickBestAudioMime webm_platform)"
    using mime_selection[of webm_platform webm_or_ogg "[]" "init webm_platform" start_ok] p1 p3
    by blast
  have val: "pickBestAudioMime webm_platform = ''audio/webm''"
    by (simp add: pickBestAudioMime_def webm_platform_def candidates_def webm_or_ogg_def)
  have c: "canRecord webm_platform"
    by (simp add: canRecord_def supportsMediaRecorder_def supportsGetUserMedia_def webm_platform_def)
  have a: "micGranted start_ok \<and> \<not> recorderCtorThrows start_ok
    \<and> \<not> contextThrows (startGraph start_ok) \<and> \<not> nodeThrows (startGraph start_ok)
    \<and> \<not> recorderStartThrows start_ok"
    by (simp add: start_ok_def quiet_graph_def)
  have st: "isRecording (startRecording webm_platform start_ok (init webm_platform))
     \<and> mediaRecorder (startRecording webm_platform start_ok (init webm_platform))
       = Some \<lparr>phase = Capturing, optMimeType = Some ''audio/webm''\<rparr>"
  proof -
    have mi: "mimeType (init webm_platform) = ''audio/webm''" by (simp add: init_webm)
    have "isRecording (startRecording webm_platform start_ok (init webm_platform))
      \<and> mediaRecorder (startRecording webm_platform start_ok (init webm_platform)) =
          Some \<lparr>phase = Capturing,
                optMimeType = (if mimeType (init webm_platform) = '''' then None
                               else Some (mimeType (init webm_platform)))\<rparr>"
      using mime_selection[of webm_platform webm_or_ogg "[]" "init webm_platform" start_ok] c a
      by blast
    then show ?thesis by (simp only: mi) simp
  qed
  have n1: "isTypeSupported no_codec_platform = Some nothing_supported"
    by (simp add: no_codec_platform_def)
  have n2: "\<forall>t\<in>set candidates. \<not> nothing_supported t" by (simp add: nothing_supported_def)
  have n3: "pickBestAudioMime no_codec_platform = ''''"
    using mime_selection[of no_codec_platform nothing_supported "[]" "init no_codec_platform" start_ok]
      n1 n2 by blast
  have r1: "\<not> canRecord no_recorder_platform"
    by (simp add: canRecord_def supportsMediaRecorder_def no_recorder_platform_def)
  have r2: "mediaRecorder (startRecording no_recorder_platform start_ok (init no_recorder_platform)) = None
     \<and> \<not> isRecording (startRecording no_recorder_platform start_ok (init no_recorder_platform))"
  proof -
    have "mediaRecorder (startRecording no_recorder_platform start_ok (init no_recorder_platform))
        = mediaRecorder (init no_recorder_platform)
      \<and> isRecording (startRecording no_recorder_platform start_ok (init no_recorder_platform))
        = isRecording (init no_recorder_platform)"
      using mime_selection[of no_recorder_platform nothing_supported "[]"
          "init no_recorder_platform" start_ok] r1 by blast
    then show ?thesis by (simp add: init_def)
  qed
  have lk: "mimeType playing_first = pickBestAudioMime webm_platform"
    by (simp add: playing_first_value val)
  show ?thesis using p1 p2 sup val lk c a st n1 n3 r1 r2 by simp
qed

text \<open>
  Claim C4, as the code has it. The stored progress is not clamped: when the element
  reports a position beyond its duration (12 seconds of 10), the listener stores 120, and
  only the width of the bar is cut to 100.
\<close>

theorem timeupdate_beyond_duration_counterexample:
  "playProgress (timeupdate_listener 12 (Finite 10) playing_first) = 120
   \<and> playProgress (media_timeupdate 12 (Finite 10) playing_first) = 120
   \<and> \<not> playProgress (media_timeupdate 12 (Finite 10) playing_first) \<le> 100
   \<and> progressBarStyle_width (playProgress (media_timeupdate 12 (Finite 10) playing_first)) = 100"
  by (simp add: media_timeupdate_fields timeupdate_listener_def progress_of_explicit
      playing_first_value progressBarStyle_width_def)

text \<open>
  Claim C4, amended. On every \<open>timeupdate\<close> the stored progress becomes the position
  divided by the duration, times 100, when the duration is a finite number other than
  zero, and 0 when the duration is zero, NaN or infinite; it is stored as computed. The
  clamp to the interval from 0 to 100 is applied to the width of the progress bar, which
  is the stored value whenever that lies in the interval. The stored progress lies in the
  interval after every \<open>timeupdate\<close> whose position lies within the reported duration, and
  after every sequence of operations whose \<open>timeupdate\<close> events are all of that kind.
\<close>

theorem timeupdate_progress:
  "playProgress (timeupdate_listener cur dur s) =
     (case dur of Finite d \<Rightarrow> if d = 0 then 0 else cur / d * 100
      | NaN \<Rightarrow> 0 | PosInfinity \<Rightarrow> 0 | NegInfinity \<Rightarrow> 0)
   \<and> 0 \<le> progressBarStyle_width pct \<and> progressBarStyle_width pct \<le> 100
   \<and> (0 \<le> pct \<and> pct \<le> 100 \<longrightarrow> progressBarStyle_width pct = pct)
   \<and> (position_ok (TimeUpdate cur dur) \<longrightarrow>
        0 \<le> playProgress (timeupdate_listener cur dur s)
        \<and> playProgress (timeupdate_listener cur dur s) \<le> 100)
   \<and> (list_all position_ok es \<longrightarrow>
        0 \<le> playProgress (run p es (init p)) \<and> playProgress (run p es (init p)) \<le> 100)"
proof -
  have stored: "playProgress (timeupdate_listener cur dur s) = progress_of cur dur"
    by (simp add: timeupdate_listener_def)
  have width: "0 \<le> progressBarStyle_width pct \<and> progressBarStyle_width pct \<le> 100
     \<and> (0 \<le> pct \<and> pct \<le> 100 \<longrightarrow> progressBarStyle_width pct = pct)"
    by (auto simp: progressBarStyle_width_def)
  have start: "progress_in_range (init p)" by (simp add: progress_in_range_def init_def)
  have seq: "list_all position_ok es \<longrightarrow>
        0 \<le> playProgress (run p es (init p)) \<and> playProgress (run p es (init p)) \<le> 100"
    using progress_in_range_run[OF _ start, of es p] by (simp add: progress_in_range_def)
  show ?thesis
    using stored progress_of_explicit[of cur dur] progress_of_range[of cur dur] width seq
    by simp
qed

theorem timeupdate_progress_witness:
  "position_ok (TimeUpdate 5 (Finite 10))
   \<and> playProgress (timeupdate_listener 5 (Finite 10) two_recordings) = 50
   \<and> (0::real) \<le> 50 \<and> (50::real) \<le> 100 \<and> progressBarStyle_width 50 = 50
   \<and> list_all position_ok [Play ''1700000000000-k3x9q'' play_ok, TimeUpdate 5 (Finite 10), Ended]
   \<and> 0 \<le> playProgress (run webm_platform
            [Play ''1700000000000-k3x9q'' play_ok, TimeUpdate 5 (Finite 10), Ended]
            (init webm_platform))
   \<and> playProgress (run webm_platform
            [Play ''1700000000000-k3x9q'' play_ok, TimeUpdate 5 (Finite 10), Ended]
            (init webm_platform)) \<le> 100"
proof -
  have ok: "position_ok (TimeUpdate 5 (Finite 10))" by simp
  have oks: "list_all position_ok
      [Play ''1700000000000-k3x9q'' play_ok, TimeUpdate 5 (Finite 10), Ended]" by simp
  have rng: "(0::real) \<le> 50 \<and> (50::real) \<le> 100" by simp
  note t = timeupdate_progress[of 5 "Finite 10" two_recordings 50
      "[Play ''1700000000000-k3x9q'' play_ok, TimeUpdate 5 (Finite 10), Ended]" webm_platform]
  have v: "playProgress (timeupdate_listener 5 (Finite 10) two_recordings) = 50"
    using t by simp
  have w: "progressBarStyle_width 50 = 50" using t rng by blast
  have r: "0 \<le> playProgress (run webm_platform
            [Play ''1700000000000-k3x9q'' play_ok, TimeUpdate 5 (Finite 10), Ended]
            (init webm_platform))
     \<and> playProgress (run webm_platform
            [Play ''1700000000000-k3x9q'' play_ok, TimeUpdate 5 (Finite 10), Ended]
            (init webm_platform)) \<le> 100"
    using t oks by blast
  show ?thesis using ok oks rng v w r by blast
qed

text \<open>
  Claim C5, as the code has it. The store can hold two recordings with one identifier (the
  platform gave the same time stamp and random suffix twice). \<open>onDelete\<close> on that
  identifier then removes both entries, so that the list shrinks by two, and revokes the
  object URL of the first of them only.
\<close>

theorem onDelete_duplicate_ids_counterexample:
  "recordings twin_recordings = [twin_rec, first_rec]
   \<and> rec_id twin_rec = rec_id first_rec
   \<and> rec_id first_rec \<in> rec_id ` set (recordings twin_recordings)
   \<and> recordings (onDelete (rec_id first_rec) twin_recordings) = []
   \<and> Suc (length (recordings (onDelete (rec_id first_rec) twin_recordings)))
       \<noteq> length (recordings twin_recordings)
   \<and> revokedUrls (onDelete (rec_id first_rec) twin_recordings)
       = url twin_rec # revokedUrls twin_recordings
   \<and> url first_rec \<notin> set (revokedUrls (onDelete (rec_id first_rec) twin_recordings))"
  by (simp add: onDelete_fields twin_recordings_value twin_rec_def first_rec_def)

text \<open>
  Claim C5, amended. \<open>onDelete i\<close> removes every entry whose identifier is \<open>i\<close> and keeps
  every other entry in place; when \<open>i\<close> is stored, it revokes the object URL of the first
  entry with that identifier. When the identifiers of the stored recordings are distinct,
  that is exactly one entry, and the list shrinks by one. When \<open>i\<close> was the active playback
  target, the active identifier becomes null, \<open>isPlaying\<close> false and the progress 0, and
  the audio element and the visualiser are dropped; otherwise the playback slot is as
  before.
\<close>

theorem onDelete_removes_entry:
  "recordings (onDelete i s) = filter (\<lambda>r. rec_id r \<noteq> i) (recordings s)
   \<and> i \<notin> rec_id ` set (recordings (onDelete i s))
   \<and> (i \<in> rec_id ` set (recordings s) \<longrightarrow>
        (\<exists>r. find (\<lambda>r. rec_id r = i) (recordings s) = Some r \<and> rec_id r = i
           \<and> revokedUrls (onDelete i s) = url r # revokedUrls s))
   \<and> (i \<in> rec_id ` set (recordings s) \<and> distinct (map rec_id (recordings s)) \<longrightarrow>
        (\<exists>pre r post. recordings s = pre @ r # post \<and> rec_id r = i
            \<and> recordings (onDelete i s) = pre @ post
            \<and> revokedUrls (onDelete i s) = url r # revokedUrls s)
        \<and> Suc (length (recordings (onDelete i s))) = length (recordings s))
   \<and> (activeId s = Some i \<longrightarrow>
          activeId (onDelete i s) = None \<and> \<not> isPlaying (onDelete i s)
          \<and> playProgress (onDelete i s) = 0 \<and> playbackAudio (onDelete i s) = None
          \<and> playback_torn_down (onDelete i s))
   \<and> (activeId s \<noteq> Some i \<longrightarrow>
          activeId (onDelete i s) = activeId s \<and> isPlaying (onDelete i s) = isPlaying s
          \<and> playProgress (onDelete i s) = playProgress s
          \<and> playbackAudio (onDelete i s) = playbackAudio s)"
proof -
  have all: "recordings (onDelete i s) = filter (\<lambda>r. rec_id r \<noteq> i) (recordings s)"
    by (simp add: onDelete_fields)
  have gone: "i \<notin> rec_id ` set (recordings (onDelete i s))"
    unfolding all by (rule filter_rec_id_absent)
  have first: "i \<in> rec_id ` set (recordings s) \<longrightarrow>
        (\<exists>r. find (\<lambda>r. rec_id r = i) (recordings s) = Some r \<and> rec_id r = i
           \<and> revokedUrls (onDelete i s) = url r # revokedUrls s)"
  proof
    assume "i \<in> rec_id ` set (recordings s)"
    from find_rec_id_present[OF this] obtain r where
      r: "find (\<lambda>r. rec_id r = i) (recordings s) = Some r" "rec_id r = i" by blast
    then have "revokedUrls (onDelete i s) = url r # revokedUrls s"
      by (simp add: onDelete_fields)
    with r show "\<exists>r. find (\<lambda>r. rec_id r = i) (recordings s) = Some r \<and> rec_id r = i
           \<and> revokedUrls (onDelete i s) = url r # revokedUrls s" by blast
  qed
  have one: "i \<in> rec_id ` set (recordings s) \<and> distinct (map rec_id (recordings s)) \<longrightarrow>
        (\<exists>pre r post. recordings s = pre @ r # post \<and> rec_id r = i
            \<and> recordings (onDelete i s) = pre @ post
            \<and> revokedUrls (onDelete i s) = url r # revokedUrls s)
        \<and> Suc (length (recordings (onDelete i s))) = length (recordings s)"
  proof
    assume h: "i \<in> rec_id ` set (recordings s) \<and> distinct (map rec_id (recordings s))"
    then have h1: "distinct (map rec_id (recordings s))" and h2: "i \<in> rec_id ` set (recordings s)"
      by simp_all
    from delete_one_entry[OF h1 h2] obtain pre r post where
      pp: "recordings s = pre @ r # post" "rec_id r = i"
        "filter (\<lambda>r. rec_id r \<noteq> i) (recordings s) = pre @ post"
        "find (\<lambda>r. rec_id r = i) (recordings s) = Some r" by blast
    have rec: "recordings (onDelete i s) = pre @ post" using pp(3) all by simp
    have rev: "revokedUrls (onDelete i s) = url r # revokedUrls s"
      using pp(4) by (simp add: onDelete_fields)
    have len: "Suc (length (recordings (onDelete i s))) = length (recordings s)"
      using rec pp(1) by simp
    have "\<exists>pre r post. recordings s = pre @ r # post \<and> rec_id r = i
            \<and> recordings (onDelete i s) = pre @ post
            \<and> revokedUrls (onDelete i s) = url r # revokedUrls s"
      using pp(1,2) rec rev by blast
    with len show "(\<exists>pre r post. recordings s = pre @ r # post \<and> rec_id r = i
            \<and> recordings (onDelete i s) = pre @ post
            \<and> revokedUrls (onDelete i s) = url r # revokedUrls s)
        \<and> Suc (length (recordings (onDelete i s))) = length (recordings s)" by blast
  qed
  have act: "activeId s = Some i \<longrightarrow>
          activeId (onDelete i s) = None \<and> \<not> isPlaying (onDelete i s)
          \<and> playProgress (onDelete i s) = 0 \<and> playbackAudio (onDelete i s) = None
          \<and> playback_torn_down (onDelete i s)"
    using onDelete_active[of s i] by simp
  have oth: "activeId s \<noteq> Some i \<longrightarrow>
          activeId (onDelete i s) = activeId s \<and> isPlaying (onDelete i s) = isPlaying s
          \<and> playProgress (onDelete i s) = playProgress s
          \<and> playbackAudio (onDelete i s) = playbackAudio s"
    using onDelete_other[of s i] by simp
  show ?thesis by (intro conjI all gone first one act oth)
qed

theorem onDelete_removes_entry_witness:
  "''1700000000000-k3x9q'' \<in> rec_id ` set (recordings playing_first)
   \<and> distinct (map rec_id (recordings playing_first))
   \<and> activeId playing_first = Some ''1700000000000-k3x9q''
   \<and> recordings playing_first = [second_rec, first_rec]
   \<and> recordings (onDelete ''1700000000000-k3x9q'' playing_first) = [second_rec]
   \<and> Suc (length (recordings (onDelete ''1700000000000-k3x9q'' playing_first))) = 2
   \<and> activeId (onDelete ''1700000000000-k3x9q'' playing_first) = None
   \<and> \<not> isPlaying (onDelete ''1700000000000-k3x9q'' playing_first)
   \<and> playProgress (onDelete ''1700000000000-k3x9q'' playing_first) = 0
   \<and> activeId playing_first \<noteq> Some ''1700000060000-a0b1c''
   \<and> activeId (onDelete ''1700000060000-a0b1c'' playing_first) = Some ''1700000000000-k3x9q''
   \<and> isPlaying (onDelete ''1700000060000-a0b1c'' playing_first)"
proof -
  have h1: "''1700000000000-k3x9q'' \<in> rec_id ` set (recordings playing_first)"
    by (simp add: playing_first_value first_rec_def)
  have h2: "distinct (map rec_id (recordings playing_first))"
    by (simp add: playing_first_value first_rec_def second_rec_def)
  have a: "activeId playing_first = Some ''1700000000000-k3x9q''"
    by (simp add: playing_first_value)
  have p: "isPlaying playing_first" by (simp add: playing_first_value)
  have n: "activeId playing_first \<noteq> Some ''1700000060000-a0b1c''"
    by (simp add: playing_first_value)
  have r: "recordings playing_first = [second_rec, first_rec]"
    by (simp add: playing_first_value)
  note t = onDelete_removes_entry[of "''1700000000000-k3x9q''" playing_first]
  note t' = onDelete_removes_entry[of "''1700000060000-a0b1c''" playing_first]
  have v: "recordings (onDelete ''1700000000000-k3x9q'' playing_first) = [second_rec]"
  proof -
    have "recordings (onDelete ''1700000000000-k3x9q'' playing_first)
        = filter (\<lambda>r. rec_id r \<noteq> ''1700000000000-k3x9q'') (recordings playing_first)"
      using t by blast
    then show ?thesis by (simp add: r first_rec_def second_rec_def)
  qed
  have l: "Suc (length (recordings (onDelete ''1700000000000-k3x9q'' playing_first))) = 2"
  proof -
    have "Suc (length (recordings (onDelete ''1700000000000-k3x9q'' playing_first)))
        = length (recordings playing_first)"
      using t h1 h2 by blast
    then show ?thesis by (simp add: r)
  qed
  have s: "activeId (onDelete ''1700000000000-k3x9q'' playing_first) = None
    \<and> \<not> isPlaying (onDelete ''1700000000000-k3x9q'' playing_first)
    \<and> playProgress (onDelete ''1700000000000-k3x9q'' playing_first) = 0"
    using t a by blast
  have o: "activeId (onDelete ''1700000060000-a0b1c'' playing_first) = Some ''1700000000000-k3x9q''
    \<and> isPlaying (onDelete ''1700000060000-a0b1c'' playing_first)"
  proof -
    have "activeId (onDelete ''1700000060000-a0b1c'' playing_first) = activeId playing_first
      \<and> isPlaying (onDelete ''1700000060000-a0b1c'' playing_first) = isPlaying playing_first"
      using t' n by blast
    then show ?thesis using a p by simp
  qed
  show ?thesis using h1 h2 a r v l s n o by blast
qed



text \<open>
  Claim C7, as the code has it. Nothing makes the identifiers distinct: when the platform
  gives the same time stamp and the same random suffix at two stops, the two recordings
  at the front of the list have the same identifier.
\<close>

theorem equal_stamps_equal_ids_counterexample:
  "\<not> assembleThrows first_stop \<and> probe first_stop \<noteq> ProbeThrows
   \<and> \<not> assembleThrows twin_stop \<and> probe twin_stop \<noteq> ProbeThrows
   \<and> recordings stopped_first = []
   \<and> recordings stopped_second = recordings (recorder_onstop first_stop stopped_first)
   \<and> recordings (recorder_onstop twin_stop stopped_second) = [twin_rec, first_rec]
   \<and> rec_id (recordings (recorder_onstop twin_stop stopped_second) ! 0)
       = rec_id (recordings (recorder_onstop twin_stop stopped_second) ! 1)"
proof -
  have a: "recordings (recorder_onstop twin_stop stopped_second) = [twin_rec, first_rec]"
    using twin_recordings_value by (simp add: twin_recordings_def)
  have b: "recordings stopped_second = recordings (recorder_onstop first_stop stopped_first)"
    by (simp add: stopped_second_value one_recording_def[symmetric] one_recording_value)
  have c: "recordings stopped_first = []" by (simp add: stopped_first_value)
  show ?thesis using a b c by (simp add: first_stop_def twin_stop_def twin_rec_def first_rec_def)
qed

text \<open>
  Claim C7, amended. After a stop whose processing does not throw, exactly one recording is
  put at the front of the list, whose length grows by one. A second such stop, with the
  list untouched in between, gives the second recording, then the first, then the old list.
  The two identifiers are distinct exactly when the time stamp or the random suffix of
  the two stops differ.
\<close>

theorem onstop_appends_at_front:
  "(\<not> assembleThrows a \<and> probe a \<noteq> ProbeThrows \<longrightarrow>
      (\<exists>d. measureBlobDuration (probe a) = Some d
           \<and> recordings (recorder_onstop a s) = newRec a s d # recordings s)
      \<and> length (recordings (recorder_onstop a s)) = Suc (length (recordings s))
      \<and> (\<not> assembleThrows b \<and> probe b \<noteq> ProbeThrows
           \<and> recordings t = recordings (recorder_onstop a s) \<longrightarrow>
          (\<exists>d e. recordings (recorder_onstop b t) = newRec b t e # newRec a s d # recordings s)
          \<and> length (recordings (recorder_onstop b t)) = Suc (Suc (length (recordings s)))
          \<and> (rec_id (recordings (recorder_onstop b t) ! 0)
                \<noteq> rec_id (recordings (recorder_onstop b t) ! 1))
             = (now a \<noteq> now b \<or> randomSuffix a \<noteq> randomSuffix b)))"
proof -
  have one: "\<exists>d. measureBlobDuration (probe x) = Some d
           \<and> recordings (recorder_onstop x u) = newRec x u d # recordings u"
    if "\<not> assembleThrows x \<and> probe x \<noteq> ProbeThrows" for x u
  proof -
    from that obtain d where "measureBlobDuration (probe x) = Some d"
      using measureBlobDuration_None[of "probe x"] by auto
    then show ?thesis using that by (simp add: recorder_onstop_recordings)
  qed
  have ids: "(rec_id (newRec b t e) \<noteq> rec_id (newRec a s d))
      = (now a \<noteq> now b \<or> randomSuffix a \<noteq> randomSuffix b)" for d e
    by (auto simp: newRec_def new_id_eq_iff)
  show ?thesis
  proof (intro impI conjI)
    assume A: "\<not> assembleThrows a \<and> probe a \<noteq> ProbeThrows"
    from one[OF A] obtain d where d: "measureBlobDuration (probe a) = Some d"
      "recordings (recorder_onstop a s) = newRec a s d # recordings s" by blast
    then show "\<exists>d. measureBlobDuration (probe a) = Some d
           \<and> recordings (recorder_onstop a s) = newRec a s d # recordings s" by blast
    show "length (recordings (recorder_onstop a s)) = Suc (length (recordings s))"
      using d by simp
    assume B: "\<not> assembleThrows b \<and> probe b \<noteq> ProbeThrows
           \<and> recordings t = recordings (recorder_onstop a s)"
    then have B': "\<not> assembleThrows b \<and> probe b \<noteq> ProbeThrows" by simp
    from one[OF B'] obtain e where e: "recordings (recorder_onstop b t) = newRec b t e # recordings t"
      by blast
    with B d have both: "recordings (recorder_onstop b t) = newRec b t e # newRec a s d # recordings s"
      by simp
    then show "\<exists>d e. recordings (recorder_onstop b t) = newRec b t e # newRec a s d # recordings s"
      by blast
    show "length (recordings (recorder_onstop b t)) = Suc (Suc (length (recordings s)))"
      using both by simp
    show "(rec_id (recordings (recorder_onstop b t) ! 0)
                \<noteq> rec_id (recordings (recorder_onstop b t) ! 1))
             = (now a \<noteq> now b \<or> randomSuffix a \<noteq> randomSuffix b)"
      using ids[of e d] both by simp
  qed
qed

theorem onstop_appends_at_front_witness:
  "\<not> assembleThrows first_stop \<and> probe first_stop \<noteq> ProbeThrows
   \<and> \<not> assembleThrows second_stop \<and> probe second_stop \<noteq> ProbeThrows
   \<and> recordings stopped_first = []
   \<and> recordings stopped_second = recordings (recorder_onstop first_stop stopped_first)
   \<and> now first_stop \<noteq> now second_stop
   \<and> recordings two_recordings = [second_rec, first_rec]
   \<and> length (recordings two_recordings) = 2
   \<and> rec_id (recordings two_recordings ! 0) \<noteq> rec_id (recordings two_recordings ! 1)"
proof -
  have h1: "\<not> assembleThrows first_stop \<and> probe first_stop \<noteq> ProbeThrows"
    by (simp add: first_stop_def)
  have h2: "\<not> assembleThrows second_stop \<and> probe second_stop \<noteq> ProbeThrows"
    by (simp add: second_stop_def)
  have h3: "recordings stopped_second = recordings (recorder_onstop first_stop stopped_first)"
    by (simp add: stopped_second_value one_recording_def[symmetric] one_recording_value)
  have h4: "now first_stop \<noteq> now second_stop" by (simp add: first_stop_def second_stop_def)
  have e: "recordings stopped_first = []" by (simp add: stopped_first_value)
  have "(rec_id (recordings (recorder_onstop second_stop stopped_second) ! 0)
        \<noteq> rec_id (recordings (recorder_onstop second_stop stopped_second) ! 1))
      = (now first_stop \<noteq> now second_stop \<or> randomSuffix first_stop \<noteq> randomSuffix second_stop)"
    using onstop_appends_at_front[of first_stop stopped_first second_stop stopped_second]
      h1 h2 h3 by blast
  then have "rec_id (recordings (recorder_onstop second_stop stopped_second) ! 0)
        \<noteq> rec_id (recordings (recorder_onstop second_stop stopped_second) ! 1)"
    using h4 by blast
  then show ?thesis using h1 h2 h3 h4 e
    by (simp add: two_recordings_def[symmetric] two_recordings_value)
qed

text \<open>
  Claim C8. \<open>stopRecording\<close> on the initial state returns the initial state. In any state
  that is not recording and where no recorder is capturing, it only clears the error
  banner: the session stays idle, no recorder is stopped, and the recordings and the
  playback slot are as before.
\<close>

theorem stopRecording_idle_noop:
  "stopRecording (init p) = init p
   \<and> (\<not> isRecording s \<and> no_active_recorder s \<longrightarrow>
        stopRecording s = s\<lparr>error := ''''\<rparr>
        \<and> \<not> isRecording (stopRecording s)
        \<and> mediaRecorder (stopRecording s) = mediaRecorder s
        \<and> recordings (stopRecording s) = recordings s
        \<and> activeId (stopRecording s) = activeId s
        \<and> isPlaying (stopRecording s) = isPlaying s
        \<and> playProgress (stopRecording s) = playProgress s)"
proof -
  have a: "stopRecording (init p) = init p"
    by (simp add: stopRecording_def init_def)
  have b: "no_active_recorder s \<Longrightarrow> stopRecording s = s\<lparr>error := ''''\<rparr>"
    by (simp add: stopRecording_def no_active_recorder_def Let_def split: option.splits)
  show ?thesis using a b by (auto simp: stopRecording_frame)
qed

theorem stopRecording_idle_noop_witness:
  "\<not> isRecording two_recordings \<and> no_active_recorder two_recordings
   \<and> stopRecording two_recordings = two_recordings
   \<and> recordings (stopRecording two_recordings) = [second_rec, first_rec]
   \<and> stopRecording (init webm_platform) = init webm_platform"
proof -
  have h: "\<not> isRecording two_recordings \<and> no_active_recorder two_recordings"
    by (simp add: two_recordings_value no_active_recorder_def)
  have e: "two_recordings\<lparr>error := ''''\<rparr> = two_recordings"
    by (simp add: two_recordings_value)
  show ?thesis
    using stopRecording_idle_noop[of webm_platform two_recordings] h e
    by (simp add: two_recordings_value)
qed

text \<open>
  Claim C9. \<open>formatDuration\<close> maps 0 to \<open>0:00\<close> and 65 to \<open>1:05\<close>; every input that is
  not finite (NaN, either infinity) to \<open>0:00\<close>; and a finite duration \<open>r\<close>, not negative
  and below \<open>2 ^ 53\<close>, to the minutes of \<open>r\<close> rounded to whole seconds, a colon, and the
  remaining seconds as exactly two decimal digits.
\<close>

theorem formatDuration_minutes_seconds:
  "formatDuration (Finite 0) = ''0:00''
   \<and> formatDuration (Finite 65) = ''1:05''
   \<and> (\<not> isFinite x \<longrightarrow> formatDuration x = ''0:00'')
   \<and> (0 \<le> r \<and> r < 2 ^ 53 \<longrightarrow>
        formatDuration (Finite r) =
          show_nat (nat (math_round r) div 60) @ '':'' @
            [digit_char (nat (math_round r) mod 60 div 10),
             digit_char (nat (math_round r) mod 60 mod 10)])"
proof -
  have zero: "formatDuration (Finite 0) = ''0:00''"
    using formatDuration_nonneg[of 0] by (simp add: math_round_def show_nat.simps digit_char_def)
  have sixty_five: "formatDuration (Finite 65) = ''1:05''"
    using formatDuration_nonneg[of 65] by (simp add: math_round_def show_nat.simps digit_char_def)
  have non_finite: "\<not> isFinite x \<longrightarrow> formatDuration x = ''0:00''"
    by (cases x) (simp_all add: isFinite_def formatDuration_def)
  show ?thesis using zero sixty_five non_finite formatDuration_nonneg[of r] by blast
qed

theorem formatDuration_minutes_seconds_witness:
  "\<not> isFinite NaN \<and> formatDuration NaN = ''0:00''
   \<and> \<not> isFinite PosInfinity \<and> formatDuration PosInfinity = ''0:00''
   \<and> (0::real) \<le> 1509 / 2 \<and> (1509 / 2 :: real) < 2 ^ 53
   \<and> formatDuration (Finite (1509 / 2)) = ''12:35''"
proof -
  have nf: "\<not> isFinite NaN" "\<not> isFinite PosInfinity" by (simp_all add: isFinite_def)
  have rng: "(0::real) \<le> 1509 / 2 \<and> (1509 / 2 :: real) < 2 ^ 53" by simp
  have a: "formatDuration NaN = ''0:00''"
    using formatDuration_minutes_seconds[of NaN 0] nf by blast
  have b: "formatDuration PosInfinity = ''0:00''"
    using formatDuration_minutes_seconds[of PosInfinity 0] nf by blast
  have "formatDuration (Finite (1509 / 2)) =
          show_nat (nat (math_round (1509 / 2)) div 60) @ '':'' @
            [digit_char (nat (math_round (1509 / 2)) mod 60 div 10),
             digit_char (nat (math_round (1509 / 2)) mod 60 mod 10)]"
    using formatDuration_minutes_seconds[of NaN "1509 / 2"] rng by blast
  then have c: "formatDuration (Finite (1509 / 2)) = ''12:35''"
    by (simp add: math_round_def show_nat.simps digit_char_def)
  show ?thesis using nf rng a b c by simp
qed

text \<open>
  Claim C10. In a state whose playback slot is consistent, \<open>onPlay\<close> with an identifier
  that no stored recording has makes that identifier the active one and sets the progress
  to 0, after pausing and rewinding the element that was there and tearing the visualiser
  down; it creates no element and starts nothing, so that \<open>isPlaying\<close> is false and no
  element plays, while the active identifier names no stored recording.
\<close>

theorem onPlay_unknown_id:
  assumes "slot_ok s" and "i \<notin> rec_id ` set (recordings s)"
  shows "activeId (onPlay a i s) = Some i
    \<and> playProgress (onPlay a i s) = 0
    \<and> \<not> isPlaying (onPlay a i s)
    \<and> playing_elements (onPlay a i s) = []
    \<and> playback_torn_down (onPlay a i s)
    \<and> playbackAudio (onPlay a i s) =
        map_option (\<lambda>el. el\<lparr>paused := True, currentTime := 0\<rparr>) (playbackAudio s)
    \<and> detachedAudio (onPlay a i s) = detachedAudio s
    \<and> recordings (onPlay a i s) = recordings s
    \<and> find (\<lambda>r. rec_id r = i) (recordings (onPlay a i s)) = None"
proof -
  note d = slot_okD[OF assms(1)]
  have branch: "\<not> (activeId s = Some i \<and> isPlaying s)"
    using d(2) assms(2) by auto
  have none: "find (\<lambda>r. rec_id r = i) (recordings s) = None"
    using assms(2) by (simp add: find_rec_id_None)
  have e: "onPlay a i s = stop_previous i s"
    using onPlay_switch_branch[OF branch, of a] none by simp
  show ?thesis
    using slot_ok_stop_previous[OF assms(1), of i] none
    by (simp add: e stop_previous_fields)
qed

theorem onPlay_unknown_id_witness:
  "slot_ok playing_first
   \<and> ''1600000000000-gone0'' \<notin> rec_id ` set (recordings playing_first)
   \<and> isPlaying playing_first \<and> playProgress playing_first = 50
   \<and> activeId (onPlay play_ok ''1600000000000-gone0'' playing_first) = Some ''1600000000000-gone0''
   \<and> playProgress (onPlay play_ok ''1600000000000-gone0'' playing_first) = 0
   \<and> \<not> isPlaying (onPlay play_ok ''1600000000000-gone0'' playing_first)
   \<and> playbackAudio (onPlay play_ok ''1600000000000-gone0'' playing_first)
       = Some \<lparr>src = ''blob:1'', paused = True, currentTime = 0\<rparr>
   \<and> find (\<lambda>r. rec_id r = ''1600000000000-gone0'')
        (recordings (onPlay play_ok ''1600000000000-gone0'' playing_first)) = None"
proof -
  have h1: "slot_ok playing_first"
    by (simp add: slot_ok_def playing_first_value first_rec_def second_rec_def)
  have h2: "''1600000000000-gone0'' \<notin> rec_id ` set (recordings playing_first)"
    by (simp add: playing_first_value first_rec_def second_rec_def)
  have b: "isPlaying playing_first \<and> playProgress playing_first = 50"
    by (simp add: playing_first_value)
  have el: "playbackAudio playing_first = Some \<lparr>src = ''blob:1'', paused = False, currentTime = 5\<rparr>"
    by (simp add: playing_first_value)
  note t = onPlay_unknown_id[OF h1 h2, of play_ok]
  have c: "playbackAudio (onPlay play_ok ''1600000000000-gone0'' playing_first)
       = Some \<lparr>src = ''blob:1'', paused = True, currentTime = 0\<rparr>"
    using t el by simp
  show ?thesis using h1 h2 b c t by blast
qed


end
